theory Spec2Isabelle
  imports Main "HOL-Library.Word"
begin

section \<open>Strings, numbers and bytes of the host language\<close>

text \<open>
  The sources are TypeScript running in a browser. A string is modelled as a \<open>string\<close>
  (a list of 8-bit code units: every character the hex decoder, \<open>trim\<close> and the message
  texts distinguish lies in that range), a \<open>Uint8Array\<close> as a list of 8-bit words, an
  optional property (\<open>undefined\<close> when absent) as an \<open>option\<close>.
\<close>

type_synonym byte = "8 word"

text \<open>
  White space as \<open>String.prototype.trim\<close> and \<open>parseInt\<close> skip it: TAB, LF, VT, FF, CR,
  SPACE and NBSP are the white-space and line-terminator code units below 256.
\<close>

definition isWhiteSpace :: "char \<Rightarrow> bool" where
  "isWhiteSpace c =
     (c \<in> set [CHR 0x09, CHR 0x0A, CHR 0x0B, CHR 0x0C, CHR 0x0D, CHR '' '', CHR 0xA0])"

definition trim :: "string \<Rightarrow> string" where
  "trim s = rev (dropWhile isWhiteSpace (rev (dropWhile isWhiteSpace s)))"

text \<open>JavaScript truthiness of a possibly absent string: absent and \<open>""\<close> are falsy.\<close>

definition truthy :: "string option \<Rightarrow> bool" where
  "truthy v = (case v of None \<Rightarrow> False | Some s \<Rightarrow> s \<noteq> [])"

text \<open>\<open>s.substring(a, b)\<close>: both indices are clamped to the length and swapped if needed.\<close>

definition substring :: "string \<Rightarrow> nat \<Rightarrow> nat \<Rightarrow> string" where
  "substring s a b =
     (let a' = min a (length s); b' = min b (length s);
          lo = min a' b'; hi = max a' b'
      in take (hi - lo) (drop lo s))"

text \<open>
  \<open>parseInt(s, 16)\<close>: leading white space is skipped, then an optional sign, then an
  optional \<open>0x\<close> or \<open>0X\<close>; the value is that of the longest run of hexadecimal digits
  that follows, and \<open>NaN\<close> (here \<open>None\<close>) when that run is empty.
\<close>

definition hexDigit :: "char \<Rightarrow> nat option" where
  "hexDigit c =
     (let n = (of_char c :: nat) in
      if 48 \<le> n \<and> n \<le> 57 then Some (n - 48)
      else if 97 \<le> n \<and> n \<le> 102 then Some (n - 87)
      else if 65 \<le> n \<and> n \<le> 70 then Some (n - 55)
      else None)"

fun hexPrefix :: "string \<Rightarrow> nat list" where
  "hexPrefix [] = []"
| "hexPrefix (c # cs) = (case hexDigit c of None \<Rightarrow> [] | Some d \<Rightarrow> d # hexPrefix cs)"

definition parseInt16 :: "string \<Rightarrow> int option" where
  "parseInt16 s =
     (let s1 = dropWhile isWhiteSpace s;
          sign = (case s1 of [] \<Rightarrow> 1 | c # r \<Rightarrow> if c = CHR ''-'' then - 1 else (1::int));
          s2 = (case s1 of [] \<Rightarrow> s1 | c # r \<Rightarrow> if c = CHR ''+'' \<or> c = CHR ''-'' then r else s1);
          s3 = (case s2 of a # b # r \<Rightarrow>
                  if a = CHR ''0'' \<and> (b = CHR ''x'' \<or> b = CHR ''X'') then r else s2
                | _ \<Rightarrow> s2);
          ds = hexPrefix s3
      in if ds = [] then None else Some (sign * int (foldl (\<lambda>a d. 16 * a + d) 0 ds)))"

text \<open>
  Storing a number into a \<open>Uint8Array\<close> element: \<open>NaN\<close> becomes 0, any other number is
  taken modulo 256. A store at an index outside the array is ignored.
\<close>

definition toUint8 :: "int option \<Rightarrow> byte" where
  "toUint8 v = (case v of None \<Rightarrow> 0 | Some n \<Rightarrow> word_of_int n)"

definition setElement :: "byte list \<Rightarrow> nat \<Rightarrow> int option \<Rightarrow> byte list" where
  "setElement bytes k v = (if k < length bytes then bytes[k := toUint8 v] else bytes)"

text \<open>Decimal rendering of a non-negative integer, as a template literal prints it.\<close>

definition digitChar :: "nat \<Rightarrow> char" where
  "digitChar d = char_of (48 + d)"

function dec :: "nat \<Rightarrow> string" where
  "dec n = (if n < 10 then [digitChar n] else dec (n div 10) @ [digitChar (n mod 10)])"
  by pat_completeness auto
termination
  by (relation "measure (\<lambda>n. n)") auto

declare dec.simps [simp del]

text \<open>
  The value of a run of decimal digits, and the decimal rendering of an integer (for the
  integers of magnitude below \<open>2^53\<close>, which a number holds exactly and prints in full).
\<close>

definition isDecDigit :: "char \<Rightarrow> bool" where
  "isDecDigit c = (48 \<le> (of_char c :: nat) \<and> (of_char c :: nat) \<le> 57)"

definition undec :: "string \<Rightarrow> nat" where
  "undec s = foldl (\<lambda>a c. 10 * a + (of_char c - 48)) 0 s"

definition showInt :: "int \<Rightarrow> string" where
  "showInt n = (if n < 0 then CHR ''-'' # dec (nat (- n)) else dec (nat n))"

section \<open>services/minimax.ts: the hex decoder\<close>

text \<open>
  \<open>hexToBytes\<close> allocates \<open>new Uint8Array(hex.length / 2)\<close> (a fractional length is
  truncated, the array is zero-filled) and then runs
  \<open>for (let i = 0; i < hex.length; i += 2) bytes[i / 2] = parseInt(hex.substring(i, i + 2), 16)\<close>.
  In the loop \<open>i\<close> stays even, so \<open>i / 2\<close> is the integer \<open>i div 2\<close>.
\<close>

function hexLoop :: "string \<Rightarrow> nat \<Rightarrow> byte list \<Rightarrow> byte list" where
  "hexLoop hex i bytes =
     (if i < length hex
      then hexLoop hex (i + 2)
             (setElement bytes (i div 2) (parseInt16 (substring hex i (i + 2))))
      else bytes)"
  by pat_completeness auto
termination
  by (relation "measure (\<lambda>(hex, i, bytes). length hex - i)") auto

declare hexLoop.simps [simp del]

definition hexToBytes :: "string \<Rightarrow> byte list" where
  "hexToBytes hex = hexLoop hex 0 (replicate (length hex div 2) 0)"

text \<open>
  Modelled from the spec: the encoder of the round-trip property, which the sources do not
  contain. It writes two lowercase hexadecimal digits per byte, high nibble first.
\<close>

definition hexChar :: "nat \<Rightarrow> char" where
  "hexChar d = (if d < 10 then char_of (48 + d) else char_of (87 + d))"

definition byteToHex :: "byte \<Rightarrow> string" where
  "byteToHex b = [hexChar (unat b div 16), hexChar (unat b mod 16)]"

definition bytesToHex :: "byte list \<Rightarrow> string" where
  "bytesToHex bs = concat (map byteToHex bs)"


section \<open>types.ts: the data model\<close>

text \<open>
  \<open>ScriptRow\<close> is declared with string fields, but its values are produced by an unchecked
  cast of objects whose fields are \<open>row[...]?.trim()\<close>; at run time every field may be
  \<open>undefined\<close>, so every field is optional here.
\<close>

record ScriptRow =
  Shot_Number :: "string option"
  Character :: "string option"
  voice_id :: "string option"
  text' :: "string option"
  emotion :: "string option"

datatype item_status = Idle | Loading | Success | Error

record ProcessingItem =
  id' :: string
  row :: ScriptRow
  status :: item_status
  audioUrl :: "string option"
  errorMessage :: "string option"

record MinimaxConfig =
  apiKey :: string
  groupId :: string

text \<open>
  The declared shape of a response body, \<open>MinimaxResponse\<close>: \<open>base_resp\<close> with a
  \<open>status_code\<close> and a \<open>status_msg\<close>, and an optional \<open>data\<close>, whose \<open>audio\<close> and
  \<open>audio_file\<close> may each be absent. The declaration is a compile-time annotation only:
  \<open>const json: MinimaxResponse = await response.json()\<close> checks nothing, and the body
  that arrives is any JSON value (see below).
\<close>

record base_resp_t =
  status_code :: int
  status_msg :: string

record data_t =
  audio :: "string option"
  audio_file :: "string option"
  data_status :: int

record MinimaxResponse =
  base_resp :: base_resp_t
  data :: "data_t option"

section \<open>JSON values and what the engine does with them\<close>

text \<open>
  The value \<open>response.json()\<close> resolves to. An object is the list of its members in the
  order of the body; of two members of one name the last counts, as the parser has it.
  A number is an integer of magnitude below \<open>2^53\<close>, which the engine holds exactly; a
  string is a \<open>string\<close>, as everywhere here. A value read from a property is a
  \<open>json option\<close>, \<open>None\<close> being \<open>undefined\<close>.
\<close>

datatype json =
    JNull
  | JBool bool
  | JNum int
  | JStr string
  | JArr "json list"
  | JObj "(string \<times> json) list"

text \<open>
  The property names the sources read. \<open>getProp v p\<close> is \<open>v.p\<close> for a value that is neither
  \<open>null\<close> nor \<open>undefined\<close>: an own property of an object, the \<open>length\<close> of a string or an
  array, and \<open>undefined\<close> otherwise (no prototype defines any of the other names).
\<close>

datatype prop_name = Base_resp | Status_code | Status_msg | Data | Audio | Audio_file | Length

fun nameOf :: "prop_name \<Rightarrow> string" where
  "nameOf Base_resp = ''base_resp''"
| "nameOf Status_code = ''status_code''"
| "nameOf Status_msg = ''status_msg''"
| "nameOf Data = ''data''"
| "nameOf Audio = ''audio''"
| "nameOf Audio_file = ''audio_file''"
| "nameOf Length = ''length''"

fun getProp :: "json \<Rightarrow> prop_name \<Rightarrow> json option" where
  "getProp (JObj kvs) p = map_of (rev kvs) (nameOf p)"
| "getProp (JArr xs) p = (if p = Length then Some (JNum (int (length xs))) else None)"
| "getProp (JStr s) p = (if p = Length then Some (JNum (int (length s))) else None)"
| "getProp v p = None"

text \<open>
  The errors the engine itself throws on the way, each a \<open>TypeError\<close> or a \<open>RangeError\<close>
  (so an \<open>Error\<close> instance): reading a property of \<open>null\<close> or of \<open>undefined\<close>; converting
  to a primitive an object that has none; \<open>new Uint8Array\<close> of a negative length; and, for
  a value \<open>hex\<close> that is no string and has a positive length, what \<open>hexToBytes\<close> ends in:
  the engine refuses to allocate the array, or it allocates it and then \<open>hex.substring\<close>
  is not a function. Which of the two, and the wording of every error, is the engine's: a
  parameter of the browser.
\<close>

datatype engine_fault =
    ReadOfNull prop_name
  | ReadOfUndefined prop_name
  | NotPrimitive
  | NegativeLength json
  | NotDecodable json

text \<open>
  \<open>json.base_resp\<close>, ready for \<open>.status_code\<close> and \<open>.status_msg\<close> to be read from it: the
  read of \<open>base_resp\<close> throws on \<open>null\<close>, and the reads from \<open>base_resp\<close> throw when it is
  \<open>undefined\<close> or \<open>null\<close>. \<open>optChain j p\<close> is \<open>json.data?.p\<close>.
\<close>

definition readBaseResp :: "json \<Rightarrow> engine_fault + json" where
  "readBaseResp j =
     (if j = JNull then Inl (ReadOfNull Base_resp)
      else (case getProp j Base_resp of
              None \<Rightarrow> Inl (ReadOfUndefined Status_code)
            | Some br \<Rightarrow> if br = JNull then Inl (ReadOfNull Status_code) else Inr br))"

definition optChain :: "json \<Rightarrow> prop_name \<Rightarrow> json option" where
  "optChain j p =
     (case getProp j Data of
        None \<Rightarrow> None
      | Some d \<Rightarrow> if d = JNull then None else getProp d p)"

text \<open>Truthiness of a value: \<open>undefined\<close>, \<open>null\<close>, \<open>false\<close>, 0 and \<open>""\<close> are falsy.\<close>

fun truthyJ :: "json option \<Rightarrow> bool" where
  "truthyJ None = False"
| "truthyJ (Some JNull) = False"
| "truthyJ (Some (JBool b)) = b"
| "truthyJ (Some (JNum n)) = (n \<noteq> 0)"
| "truthyJ (Some (JStr s)) = (s \<noteq> [])"
| "truthyJ (Some (JArr xs)) = True"
| "truthyJ (Some (JObj kvs)) = True"

text \<open>
  The string form of a value, as a template literal or \<open>fetch\<close> takes it. An array is the
  join of its elements with commas, \<open>null\<close> elements giving nothing; an object is
  \<open>[object Object]\<close>, unless it has an own property \<open>toString\<close>, which (being no function)
  leaves it without a primitive form.
\<close>

fun toStr :: "json \<Rightarrow> engine_fault + string"
  and joinElems :: "json list \<Rightarrow> engine_fault + string" where
  "toStr JNull = Inr ''null''"
| "toStr (JBool b) = Inr (if b then ''true'' else ''false'')"
| "toStr (JNum n) = Inr (showInt n)"
| "toStr (JStr s) = Inr s"
| "toStr (JArr xs) = joinElems xs"
| "toStr (JObj kvs) =
     (if map_of kvs ''toString'' \<noteq> None then Inl NotPrimitive else Inr ''[object Object]'')"
| "joinElems [] = Inr []"
| "joinElems (x # xs) =
     (case (if x = JNull then Inr [] else toStr x) of
        Inl f \<Rightarrow> Inl f
      | Inr s \<Rightarrow>
          if xs = [] then Inr s
          else (case joinElems xs of Inl f \<Rightarrow> Inl f | Inr r \<Rightarrow> Inr (s @ '','' @ r)))"

definition templateString :: "json option \<Rightarrow> engine_fault + string" where
  "templateString v = (case v of None \<Rightarrow> Inr ''undefined'' | Some x \<Rightarrow> toStr x)"

text \<open>
  What \<open>hexToBytes\<close> does with the number that \<open>hex.length\<close> converts to, \<open>x\<close> say, when
  \<open>hex\<close> is not a string. The array is \<open>new Uint8Array(x / 2)\<close> and the loop runs while
  \<open>i < x\<close>, so only the class of \<open>x\<close> matters: not a number (the length is 0 and the loop
  does not run); at most 0 but above -2 (the same: the length truncates to 0); -2 or
  below (the length is negative); positive (the array is allocated, if the engine does
  that, and the loop runs). \<open>magnitudeClass neg m e f\<close> is the class of the number that the
  literal of value \<open>m * 10^e / 10^f\<close>, negated if \<open>neg\<close>, denotes, which is the nearest
  number the engine has: 0 up to \<open>2^-1075\<close>, and -2 from \<open>-(2 - 2^-53)\<close> on.
\<close>

datatype length_class = NotNumber | Zeroish | Positive | Negative

definition magnitudeClass :: "bool \<Rightarrow> nat \<Rightarrow> nat \<Rightarrow> nat \<Rightarrow> length_class" where
  "magnitudeClass neg m e f =
     (if m * 10 ^ e * 2 ^ 1075 \<le> 10 ^ f then Zeroish
      else if neg then (if (2 ^ 54 - 1) * 10 ^ f \<le> m * 10 ^ e * 2 ^ 53 then Negative else Zeroish)
      else Positive)"

text \<open>
  The number a string converts to: white space around it is dropped; the empty string is
  0; then \<open>Infinity\<close> with an optional sign, an unsigned \<open>0x\<close>, \<open>0o\<close> or \<open>0b\<close> literal, or a
  decimal literal with optional sign, fraction and exponent; anything else is \<open>NaN\<close>.
\<close>

definition digitsIn :: "nat \<Rightarrow> string \<Rightarrow> bool" where
  "digitsIn radix ds =
     (ds \<noteq> [] \<and> list_all (\<lambda>c. case hexDigit c of None \<Rightarrow> False | Some d \<Rightarrow> d < radix) ds)"

definition radixValue :: "nat \<Rightarrow> string \<Rightarrow> nat" where
  "radixValue radix ds = foldl (\<lambda>a d. radix * a + d) 0 (hexPrefix ds)"

definition parseNonDecimal :: "string \<Rightarrow> nat option" where
  "parseNonDecimal t =
     (case t of
        z # c # ds \<Rightarrow>
          if z \<noteq> CHR ''0'' then None
          else if (c = CHR ''x'' \<or> c = CHR ''X'') \<and> digitsIn 16 ds then Some (radixValue 16 ds)
          else if (c = CHR ''o'' \<or> c = CHR ''O'') \<and> digitsIn 8 ds then Some (radixValue 8 ds)
          else if (c = CHR ''b'' \<or> c = CHR ''B'') \<and> digitsIn 2 ds then Some (radixValue 2 ds)
          else None
      | _ \<Rightarrow> None)"

definition parseExponent :: "string \<Rightarrow> int option" where
  "parseExponent r =
     (case r of
        [] \<Rightarrow> Some 0
      | c # r3 \<Rightarrow>
          if c = CHR ''e'' \<or> c = CHR ''E''
          then (let neg = (case r3 of [] \<Rightarrow> False | d # r4 \<Rightarrow> d = CHR ''-'');
                    r4 = (case r3 of [] \<Rightarrow> []
                          | d # r5 \<Rightarrow> if d = CHR ''+'' \<or> d = CHR ''-'' then r5 else r3)
                in if r4 \<noteq> [] \<and> list_all isDecDigit r4
                   then Some (if neg then - int (undec r4) else int (undec r4))
                   else None)
          else None)"

definition parseDecimal :: "string \<Rightarrow> (nat \<times> int) option" where
  "parseDecimal u =
     (let ip = takeWhile isDecDigit u;
          r1 = dropWhile isDecDigit u;
          fp = (case r1 of [] \<Rightarrow> []
                | c # r \<Rightarrow> if c = CHR ''.'' then takeWhile isDecDigit r else []);
          r2 = (case r1 of [] \<Rightarrow> []
                | c # r \<Rightarrow> if c = CHR ''.'' then dropWhile isDecDigit r else r1)
      in if ip = [] \<and> fp = [] then None
         else (case parseExponent r2 of
                 None \<Rightarrow> None
               | Some e \<Rightarrow> Some (undec (ip @ fp), e - int (length fp))))"

definition stringClass :: "string \<Rightarrow> length_class" where
  "stringClass s =
     (let t = trim s;
          neg = (case t of [] \<Rightarrow> False | c # r \<Rightarrow> c = CHR ''-'');
          u = (case t of [] \<Rightarrow> []
               | c # r \<Rightarrow> if c = CHR ''+'' \<or> c = CHR ''-'' then r else t)
      in if t = [] then Zeroish
         else if u = ''Infinity'' then (if neg then Negative else Positive)
         else (case parseNonDecimal t of
                 Some m \<Rightarrow> magnitudeClass False m 0 0
               | None \<Rightarrow>
                   (case parseDecimal u of
                      None \<Rightarrow> NotNumber
                    | Some (m, k) \<Rightarrow>
                        magnitudeClass neg m (if 0 \<le> k then nat k else 0)
                          (if 0 \<le> k then 0 else nat (- k)))))"

text \<open>
  The class of the number a value converts to (\<open>undefined\<close> is \<open>NaN\<close>, \<open>null\<close> and \<open>false\<close>
  are 0, \<open>true\<close> is 1, an array goes through its string form, an object has the string
  form \<open>[object Object]\<close> or none).
\<close>

fun lengthClass :: "json option \<Rightarrow> engine_fault + length_class" where
  "lengthClass None = Inr NotNumber"
| "lengthClass (Some JNull) = Inr Zeroish"
| "lengthClass (Some (JBool b)) = Inr (if b then Positive else Zeroish)"
| "lengthClass (Some (JNum n)) = Inr (magnitudeClass (n < 0) (nat \<bar>n\<bar>) 0 0)"
| "lengthClass (Some (JStr s)) = Inr (stringClass s)"
| "lengthClass (Some (JArr xs)) =
     (case joinElems xs of Inl f \<Rightarrow> Inl f | Inr s \<Rightarrow> Inr (stringClass s))"
| "lengthClass (Some (JObj kvs)) =
     (if map_of kvs ''toString'' \<noteq> None then Inl NotPrimitive else Inr NotNumber)"

text \<open>
  \<open>hexToBytes(v)\<close> for the value \<open>json.data.audio\<close>, whatever it is: a string is decoded
  as above; for anything else the same function body runs on \<open>v.length\<close>, and either
  returns an empty array or ends in an error of the engine.
\<close>

definition hexToBytesValue :: "json \<Rightarrow> engine_fault + byte list" where
  "hexToBytesValue v =
     (case v of
        JStr s \<Rightarrow> Inr (hexToBytes s)
      | _ \<Rightarrow>
          (case lengthClass (getProp v Length) of
             Inl f \<Rightarrow> Inl f
           | Inr NotNumber \<Rightarrow> Inr []
           | Inr Zeroish \<Rightarrow> Inr []
           | Inr Positive \<Rightarrow> Inl (NotDecodable v)
           | Inr Negative \<Rightarrow> Inl (NegativeLength v)))"

text \<open>A body of the declared shape, as the JSON value it is.\<close>

definition dataJson :: "data_t \<Rightarrow> json" where
  "dataJson d =
     JObj ((case audio d of None \<Rightarrow> [] | Some a \<Rightarrow> [(''audio'', JStr a)])
           @ (case audio_file d of None \<Rightarrow> [] | Some u \<Rightarrow> [(''audio_file'', JStr u)])
           @ [(''status'', JNum (data_status d))])"

definition toJson :: "MinimaxResponse \<Rightarrow> json" where
  "toJson j =
     JObj ([(''base_resp'',
             JObj [(''status_code'', JNum (status_code (base_resp j))),
                   (''status_msg'', JStr (status_msg (base_resp j)))])]
           @ (case data j of None \<Rightarrow> [] | Some d \<Rightarrow> [(''data'', dataJson d)]))"

section \<open>The browser: requests, responses, object URLs\<close>

text \<open>
  What a promise may reject with: an \<open>Error\<close> instance carrying a message (the
  \<open>TypeError\<close> of a failed \<open>fetch\<close>, the \<open>SyntaxError\<close> of \<open>response.json()\<close>), or any
  other value.
\<close>

datatype js_thrown = ErrorInstance string | OtherValue

datatype blob = Blob "byte list" string

record voice_setting_t =
  vs_voice_id :: "string option"
  speed :: int
  vol :: int
  pitch :: int

record audio_setting_t =
  sample_rate :: int
  bitrate :: int
  format :: string
  channel :: int

record payload_t =
  model :: string
  payload_text :: "string option"
  stream :: bool
  voice_setting :: voice_setting_t
  audio_setting :: audio_setting_t

text \<open>
  A request is the \<open>POST\<close> to the synthesis endpoint (URL, headers, the payload that
  \<open>JSON.stringify\<close> serialises) or the plain \<open>GET\<close> of an audio file.
\<close>

datatype request = Post string "(string \<times> string) list" payload_t | Get string

record response =
  http_status :: nat
  statusText :: string
  json :: "js_thrown + json"
  body_blob :: "js_thrown + blob"

text \<open>\<open>response.ok\<close> is true exactly for the status codes 200 to 299.\<close>

definition ok :: "response \<Rightarrow> bool" where
  "ok r = (200 \<le> http_status r \<and> http_status r \<le> 299)"

text \<open>
  The network is a parameter: it answers a request, given how many requests were issued
  before it, with a response or with a rejection. The browser state records the requests
  issued so far, oldest first, and the store of object URLs: \<open>URL.createObjectURL\<close> adds
  an entry under a fresh URL, which stays (and keeps its blob alive) until
  \<open>URL.revokeObjectURL\<close> removes it. The browser also fixes the message text of the
  errors its engine throws.
\<close>

type_synonym world = "nat \<Rightarrow> request \<Rightarrow> js_thrown + response"

record browser =
  sent :: "request list"
  objectURLs :: "(string \<times> blob) list"
  minted :: nat
  errorText :: "engine_fault \<Rightarrow> string"

definition fetch :: "world \<Rightarrow> request \<Rightarrow> browser \<Rightarrow> (js_thrown + response) \<times> browser" where
  "fetch w req b = (w (length (sent b)) req, b\<lparr>sent := sent b @ [req]\<rparr>)"

definition createObjectURL :: "blob \<Rightarrow> browser \<Rightarrow> string \<times> browser" where
  "createObjectURL bl b =
     (let url = ''blob:'' @ dec (minted b)
      in (url, b\<lparr>objectURLs := objectURLs b @ [(url, bl)], minted := minted b + 1\<rparr>))"

definition revokeObjectURL :: "string \<Rightarrow> browser \<Rightarrow> browser" where
  "revokeObjectURL url b = b\<lparr>objectURLs := filter (\<lambda>e. fst e \<noteq> url) (objectURLs b)\<rparr>"

section \<open>services/minimax.ts: generateSpeech\<close>

text \<open>
  The three \<open>throw new Error(...)\<close> of \<open>generateSpeech\<close> are kept apart by constructor, in
  the order of the source; \<open>Rejected\<close> is a rejection of \<open>fetch\<close>, \<open>response.json()\<close> or
  \<open>audioRes.blob()\<close>, or an error of the engine (\<open>engineError\<close>), passing through the
  \<open>catch\<close> that logs and rethrows. \<open>message\<close> is the
  text of the \<open>Error\<close> thrown (a thrown value that is no \<open>Error\<close> has none; the caller
  asks \<open>instanceof Error\<close> first).
\<close>

datatype failure =
    TransportError nat string
  | ServiceError string
  | NoAudioDataError
  | Rejected js_thrown

fun instanceofError :: "failure \<Rightarrow> bool" where
  "instanceofError (Rejected OtherValue) = False"
| "instanceofError _ = True"

fun message :: "failure \<Rightarrow> string" where
  "message (TransportError code txt) = ''API Error: '' @ dec code @ '' '' @ txt"
| "message (ServiceError msg) = ''Minimax Error: '' @ msg"
| "message NoAudioDataError = ''No audio data received in response''"
| "message (Rejected (ErrorInstance msg)) = msg"
| "message (Rejected OtherValue) = []"

definition mkPayload :: "string \<Rightarrow> string option \<Rightarrow> string option \<Rightarrow> payload_t" where
  "mkPayload modelName txt voiceId =
     \<lparr>model = modelName, payload_text = txt, stream = False,
      voice_setting = \<lparr>vs_voice_id = voiceId, speed = 1, vol = 1, pitch = 0\<rparr>,
      audio_setting = \<lparr>sample_rate = 32000, bitrate = 128000, format = ''mp3'', channel = 1\<rparr>\<rparr>"

definition apiRequest :: "string option \<Rightarrow> string option \<Rightarrow> MinimaxConfig \<Rightarrow> string \<Rightarrow> request" where
  "apiRequest txt voiceId config modelName =
     (let groupId' = trim (groupId config);
          apiKey' = trim (apiKey config);
          url = ''https://api.minimax.chat/v1/t2a_v2?GroupId='' @ groupId'
      in Post url
           [(''Authorization'', ''Bearer '' @ apiKey'), (''Content-Type'', ''application/json'')]
           (mkPayload modelName txt voiceId))"

text \<open>The follow-up request: \<open>const audioRes = await fetch(url); return await audioRes.blob()\<close>.\<close>

definition fetchAudioFile :: "world \<Rightarrow> string \<Rightarrow> browser \<Rightarrow> (failure + blob) \<times> browser" where
  "fetchAudioFile w url b =
     (case fetch w (Get url) b of
        (Inl e, b2) \<Rightarrow> (Inl (Rejected e), b2)
      | (Inr audioRes, b2) \<Rightarrow>
          (case body_blob audioRes of
             Inl e \<Rightarrow> (Inl (Rejected e), b2)
           | Inr bl \<Rightarrow> (Inr bl, b2)))"

definition engineError :: "browser \<Rightarrow> engine_fault \<Rightarrow> failure" where
  "engineError b f = Rejected (ErrorInstance (errorText b f))"

definition generateSpeech ::
  "world \<Rightarrow> string option \<Rightarrow> string option \<Rightarrow> MinimaxConfig \<Rightarrow> string \<Rightarrow> browser
     \<Rightarrow> (failure + blob) \<times> browser" where
  "generateSpeech w txt voiceId config modelName b =
     (case fetch w (apiRequest txt voiceId config modelName) b of
        (Inl e, b1) \<Rightarrow> (Inl (Rejected e), b1)
      | (Inr resp, b1) \<Rightarrow>
          if \<not> ok resp then (Inl (TransportError (http_status resp) (statusText resp)), b1)
          else (case json resp of
              Inl e \<Rightarrow> (Inl (Rejected e), b1)
            | Inr j \<Rightarrow>
                (case readBaseResp j of
                   Inl f \<Rightarrow> (Inl (engineError b1 f), b1)
                 | Inr br \<Rightarrow>
                     if getProp br Status_code \<noteq> Some (JNum 0)
                     then (case templateString (getProp br Status_msg) of
                             Inl f \<Rightarrow> (Inl (engineError b1 f), b1)
                           | Inr msg \<Rightarrow> (Inl (ServiceError msg), b1))
                     else if truthyJ (optChain j Audio)
                     then (case hexToBytesValue (the (optChain j Audio)) of
                             Inl f \<Rightarrow> (Inl (engineError b1 f), b1)
                           | Inr audioBytes \<Rightarrow> (Inr (Blob audioBytes ''audio/mp3''), b1))
                     else if truthyJ (optChain j Audio_file)
                     then (case toStr (the (optChain j Audio_file)) of
                             Inl f \<Rightarrow> (Inl (engineError b1 f), b1)
                           | Inr url \<Rightarrow> fetchAudioFile w url b1)
                     else (Inl NoAudioDataError, b1))))"

section \<open>utils/csvHelper.ts: parseCSV\<close>

text \<open>
  \<open>Papa.parse\<close> (with \<open>header: true\<close>) is an external library: it either reports an error
  or completes with one object per record, keyed by the header names, every value a
  string. The \<open>complete\<close> callback maps each record to its five trimmed fields
  (\<open>row[...]?.trim()\<close>: an absent field stays absent) and keeps the records whose
  \<open>text\<close>, \<open>voice_id\<close> and \<open>Character\<close> are all truthy.
\<close>

type_synonym raw_row = "string \<rightharpoonup> string"

datatype papa_result = Complete "raw_row list" | PapaError js_thrown

definition cleanRow :: "raw_row \<Rightarrow> ScriptRow" where
  "cleanRow r =
     \<lparr>Shot_Number = map_option trim (r ''Shot Number''),
      Character = map_option trim (r ''Character''),
      voice_id = map_option trim (r ''voice_id''),
      text' = map_option trim (r ''text''),
      emotion = map_option trim (r ''emotion'')\<rparr>"

definition keepRow :: "ScriptRow \<Rightarrow> bool" where
  "keepRow r = (truthy (text' r) \<and> truthy (voice_id r) \<and> truthy (Character r))"

definition parseCSV :: "papa_result \<Rightarrow> js_thrown + ScriptRow list" where
  "parseCSV res =
     (case res of
        Complete results_data \<Rightarrow> Inr (filter keepRow (map cleanRow results_data))
      | PapaError e \<Rightarrow> Inl e)"

text \<open>
  The acceptance rule in the specification's words: \<open>Character\<close>, \<open>voice_id\<close> and \<open>text\<close>
  are present and non-empty after trimming.
\<close>

definition nonEmptyAfterTrim :: "string option \<Rightarrow> bool" where
  "nonEmptyAfterTrim v = (case v of None \<Rightarrow> False | Some s \<Rightarrow> trim s \<noteq> [])"

definition accepted :: "raw_row \<Rightarrow> bool" where
  "accepted r =
     (nonEmptyAfterTrim (r ''Character'') \<and> nonEmptyAfterTrim (r ''voice_id'')
      \<and> nonEmptyAfterTrim (r ''text''))"

section \<open>App.tsx: the batch\<close>

text \<open>
  The component's state (\<open>useState\<close>) together with the browser it runs in. A run of
  \<open>processBatch\<close> is modelled without other events interleaved: every
  \<open>setItems(prev => ...)\<close> then sees the list its predecessor left.
\<close>

record progress_t =
  current :: nat
  total :: nat

record app =
  items :: "ProcessingItem list"
  isProcessing :: bool
  progress :: progress_t
  error :: "string option"
  app_apiKey :: string
  app_groupId :: string
  browser :: browser

definition DEFAULT_MODEL :: string where
  "DEFAULT_MODEL = ''speech-2.6-turbo''"

text \<open>
  \<open>handleFileUpload\<close>: no file selected leaves the state alone; otherwise the error is
  reset and the accepted rows become idle items with the ids
  \<open>`${index}-${Date.now()}`\<close>. The clock gives the value of \<open>Date.now()\<close> at each index.
\<close>

definition newItems :: "(nat \<Rightarrow> nat) \<Rightarrow> ScriptRow list \<Rightarrow> ProcessingItem list" where
  "newItems clock rows =
     map (\<lambda>(index, r).
            \<lparr>id' = dec index @ ''-'' @ dec (clock index), row = r, status = Idle,
             audioUrl = None, errorMessage = None\<rparr>)
         (enumerate 0 rows)"

definition handleFileUpload :: "(nat \<Rightarrow> nat) \<Rightarrow> papa_result option \<Rightarrow> app \<Rightarrow> app" where
  "handleFileUpload clock file st =
     (case file of
        None \<Rightarrow> st
      | Some res \<Rightarrow>
          (let st1 = st\<lparr>error := None\<rparr> in
           case parseCSV res of
             Inl err \<Rightarrow> st1\<lparr>error := Some ''Failed to parse CSV file.''\<rparr>
           | Inr rows \<Rightarrow>
               if length rows = 0
               then st1\<lparr>error := Some
                 (''No valid data found in CSV. Ensure headers: '' @
                  [CHR 0x27] @ ''Shot Number'' @ [CHR 0x27] @ '', '' @
                  [CHR 0x27] @ ''Character'' @ [CHR 0x27] @ '', '' @
                  [CHR 0x27] @ ''voice_id'' @ [CHR 0x27] @ '', '' @
                  [CHR 0x27] @ ''text'' @ [CHR 0x27] @ ''.'')\<rparr>
               else st1\<lparr>items := newItems clock rows\<rparr>))"

text \<open>The Clear button: \<open>onClick={() => setItems([])}\<close>.\<close>

definition onClickClear :: "app \<Rightarrow> app" where
  "onClickClear st = st\<lparr>items := []\<rparr>"

text \<open>
  \<open>processBatch\<close>. \<open>pendingItems\<close> is the filter over the items of the state the callback
  closed over. The body of the \<open>for\<close> loop is \<open>processItem\<close>: mark the item as loading and
  drop its error message, \<open>await generateSpeech\<close>, then either create the object URL and
  mark success, or (in the \<open>catch\<close>) mark error with the message, where
  \<open>msg = err instanceof Error ? err.message : 'Unknown error'\<close>. Each \<open>setItems\<close> maps over
  the whole list and rewrites the entries whose id equals the item's.
\<close>

definition pendingItems :: "ProcessingItem list \<Rightarrow> ProcessingItem list" where
  "pendingItems xs = filter (\<lambda>i. status i = Idle \<or> status i = Error) xs"

definition catchMessage :: "failure \<Rightarrow> string" where
  "catchMessage err = (if instanceofError err then message err else ''Unknown error'')"

definition markLoading :: "ProcessingItem \<Rightarrow> ProcessingItem list \<Rightarrow> ProcessingItem list" where
  "markLoading item prev =
     map (\<lambda>i. if id' i = id' item then i\<lparr>status := Loading, errorMessage := None\<rparr> else i) prev"

definition markSuccess :: "ProcessingItem \<Rightarrow> string \<Rightarrow> ProcessingItem list \<Rightarrow> ProcessingItem list" where
  "markSuccess item url prev =
     map (\<lambda>i. if id' i = id' item then i\<lparr>status := Success, audioUrl := Some url\<rparr> else i) prev"

definition markError :: "ProcessingItem \<Rightarrow> string \<Rightarrow> ProcessingItem list \<Rightarrow> ProcessingItem list" where
  "markError item msg prev =
     map (\<lambda>i. if id' i = id' item then i\<lparr>status := Error, errorMessage := Some msg\<rparr> else i) prev"

definition processItem :: "world \<Rightarrow> MinimaxConfig \<Rightarrow> ProcessingItem \<Rightarrow> app \<Rightarrow> app" where
  "processItem w config item st =
     (let st1 = st\<lparr>items := markLoading item (items st)\<rparr> in
      case generateSpeech w (text' (row item)) (voice_id (row item)) config DEFAULT_MODEL
             (browser st1) of
        (Inr bl, b1) \<Rightarrow>
          (case createObjectURL bl b1 of
             (url, b2) \<Rightarrow> st1\<lparr>browser := b2, items := markSuccess item url (items st1)\<rparr>)
      | (Inl err, b1) \<Rightarrow>
          st1\<lparr>browser := b1, items := markError item (catchMessage err) (items st1)\<rparr>)"

fun batchLoop :: "world \<Rightarrow> MinimaxConfig \<Rightarrow> ProcessingItem list \<Rightarrow> nat \<Rightarrow> app \<Rightarrow> app" where
  "batchLoop w config [] processedCount st = st"
| "batchLoop w config (item # rest) processedCount st =
     (let st1 = processItem w config item st;
          processedCount' = processedCount + 1
      in batchLoop w config rest processedCount'
           (st1\<lparr>progress := (progress st1)\<lparr>current := processedCount'\<rparr>\<rparr>))"

text \<open>
  \<open>stats\<close> (the \<open>useMemo\<close> over the items). The succeeded and the failed items are
  disjoint sublists of the items, so the subtraction never goes below 0.
\<close>

record stats_t =
  stats_total :: nat
  stats_success :: nat
  stats_error :: nat
  stats_pending :: nat

definition stats :: "ProcessingItem list \<Rightarrow> stats_t" where
  "stats xs =
     (let total' = length xs;
          success = length (filter (\<lambda>i. status i = Success) xs);
          error' = length (filter (\<lambda>i. status i = Error) xs);
          pending = total' - success - error'
      in \<lparr>stats_total = total', stats_success = success, stats_error = error',
          stats_pending = pending\<rparr>)"

definition credentials :: "app \<Rightarrow> MinimaxConfig" where
  "credentials st = \<lparr>apiKey = app_apiKey st, groupId = app_groupId st\<rparr>"

definition startBatch :: "app \<Rightarrow> app" where
  "startBatch st =
     st\<lparr>isProcessing := True,
        progress := \<lparr>current = 0, total = length (pendingItems (items st))\<rparr>\<rparr>"

definition processBatch :: "world \<Rightarrow> app \<Rightarrow> app" where
  "processBatch w st =
     (if app_apiKey st = [] \<or> app_groupId st = []
      then st\<lparr>error := Some ''Please provide API Key and Group ID.''\<rparr>
      else (batchLoop w (credentials st) (pendingItems (items st)) 0 (startBatch st))
             \<lparr>isProcessing := False\<rparr>)"

text \<open>
  Vocabulary for the statements below: the result of the \<open>generateSpeech\<close> call made for
  an item when the loop reaches it in a given state; the \<open>POST\<close> requests of a request
  log; and the net effect of one loop iteration on the item it is about.
\<close>

definition outcome :: "world \<Rightarrow> MinimaxConfig \<Rightarrow> ProcessingItem \<Rightarrow> app \<Rightarrow> failure + blob" where
  "outcome w config item st =
     fst (generateSpeech w (text' (row item)) (voice_id (row item)) config DEFAULT_MODEL
            (browser st))"

fun isPost :: "request \<Rightarrow> bool" where
  "isPost (Post url headers body) = True"
| "isPost (Get url) = False"

definition posts :: "request list \<Rightarrow> request list" where
  "posts rs = filter isPost rs"

definition settle :: "failure + blob \<Rightarrow> string \<Rightarrow> ProcessingItem \<Rightarrow> ProcessingItem" where
  "settle res url i =
     (case res of
        Inr bl \<Rightarrow> i\<lparr>status := Success, audioUrl := Some url, errorMessage := None\<rparr>
      | Inl err \<Rightarrow> i\<lparr>status := Error, errorMessage := Some (catchMessage err)\<rparr>)"

text \<open>
  Modelled from the spec: "process this subset strictly sequentially, one item at a time,
  in original row order". \<open>oneAtATime\<close> is that schedule and nothing else: \<open>generateSpeech\<close>
  is called for the first item of the list and runs to its end, follow-up request
  included; only then, on the request log that call has left, for the next item. It
  gives the results of the calls, in the order of the list, and the browser with the
  request log after the last call.
\<close>

fun oneAtATime ::
  "world \<Rightarrow> MinimaxConfig \<Rightarrow> ProcessingItem list \<Rightarrow> browser \<Rightarrow> (failure + blob) list \<times> browser" where
  "oneAtATime w config [] b = ([], b)"
| "oneAtATime w config (item # rest) b =
     (case generateSpeech w (text' (row item)) (voice_id (row item)) config DEFAULT_MODEL b of
        (res, b1) \<Rightarrow>
          (case oneAtATime w config rest b1 of (results, b2) \<Rightarrow> (res # results, b2)))"

text \<open>The byte the decoder's loop stores at index \<open>j\<close>.\<close>

definition byteAt :: "string \<Rightarrow> nat \<Rightarrow> byte" where
  "byteAt hex j = toUint8 (parseInt16 (substring hex (2 * j) (2 * j + 2)))"

section \<open>Concrete inputs\<close>

text \<open>
  Inputs on which the statements below are evaluated: a browser that has issued nothing
  (with an engine's wording of its errors), credentials, and responses of the synthesis
  service (success with inline audio, success with a remote audio file, an embedded
  service error, bodies that are not of the declared shape).
\<close>

fun propText :: "prop_name \<Rightarrow> string" where
  "propText p = ''(reading '' @ [CHR 0x27] @ nameOf p @ [CHR 0x27] @ '')''"

fun exampleErrorText :: "engine_fault \<Rightarrow> string" where
  "exampleErrorText (ReadOfNull p) = ''Cannot read properties of null '' @ propText p"
| "exampleErrorText (ReadOfUndefined p) = ''Cannot read properties of undefined '' @ propText p"
| "exampleErrorText NotPrimitive = ''Cannot convert object to primitive value''"
| "exampleErrorText (NegativeLength v) = ''Invalid typed array length''"
| "exampleErrorText (NotDecodable v) = ''hex.substring is not a function''"

definition freshBrowser :: browser where
  "freshBrowser = \<lparr>sent = [], objectURLs = [], minted = 0, errorText = exampleErrorText\<rparr>"

definition demoConfig :: MinimaxConfig where
  "demoConfig = \<lparr>apiKey = ''key'', groupId = ''group''\<rparr>"

definition inlineAudioResponse :: "string \<Rightarrow> response" where
  "inlineAudioResponse hex =
     \<lparr>http_status = 200, statusText = ''OK'',
      json = Inr (toJson
               \<lparr>base_resp = \<lparr>status_code = 0, status_msg = ''success''\<rparr>,
                data = Some \<lparr>audio = Some hex, audio_file = None, data_status = 2\<rparr>\<rparr>),
      body_blob = Inl (ErrorInstance ''body stream already read'')\<rparr>"

text \<open>The record of the specification's scenario, as the CSV parser delivers it.\<close>

definition neoRow :: raw_row where
  "neoRow = [''Shot Number'' \<mapsto> ''001'', ''Character'' \<mapsto> ''Neo'', ''voice_id'' \<mapsto> ''v1'',
             ''text'' \<mapsto> ''Hello'']"

text \<open>
  A success response that names a remote audio file (with an empty inline string), the
  service error of the specification's scenario, a transport-level failure, and three
  networks: one that always answers a request with the same response, one whose file
  server is unreachable, one whose file server delivers the bytes of \<open>hello\<close>.
\<close>

definition remoteAudioResponse :: "string \<Rightarrow> response" where
  "remoteAudioResponse url =
     \<lparr>http_status = 200, statusText = ''OK'',
      json = Inr (toJson
               \<lparr>base_resp = \<lparr>status_code = 0, status_msg = ''success''\<rparr>,
                data = Some \<lparr>audio = Some [], audio_file = Some url, data_status = 2\<rparr>\<rparr>),
      body_blob = Inl (ErrorInstance ''body stream already read'')\<rparr>"

definition rateLimitedResponse :: response where
  "rateLimitedResponse =
     \<lparr>http_status = 200, statusText = ''OK'',
      json = Inr (toJson
               \<lparr>base_resp = \<lparr>status_code = 1002, status_msg = ''rate limited''\<rparr>,
                data = None\<rparr>),
      body_blob = Inl (ErrorInstance ''body stream already read'')\<rparr>"

definition unavailableResponse :: response where
  "unavailableResponse =
     \<lparr>http_status = 503, statusText = ''Service Unavailable'',
      json = Inl (ErrorInstance ''Unexpected token < in JSON at position 0''),
      body_blob = Inr (Blob [] ''text/html'')\<rparr>"

definition fileResponse :: response where
  "fileResponse =
     \<lparr>http_status = 200, statusText = ''OK'',
      json = Inl (ErrorInstance ''Unexpected token I in JSON at position 0''),
      body_blob = Inr (Blob [0x68, 0x65, 0x6c, 0x6c, 0x6f] ''audio/mpeg'')\<rparr>"

definition bodyResponse :: "json \<Rightarrow> response" where
  "bodyResponse j =
     \<lparr>http_status = 200, statusText = ''OK'', json = Inr j,
      body_blob = Inl (ErrorInstance ''body stream already read'')\<rparr>"

definition successBody :: "(string \<times> json) list \<Rightarrow> json" where
  "successBody d =
     JObj [(''base_resp'', JObj [(''status_code'', JNum 0), (''status_msg'', JStr ''success'')]),
           (''data'', JObj d)]"

definition always :: "response \<Rightarrow> world" where
  "always resp n req = Inr resp"

definition fileServerDown :: "response \<Rightarrow> world" where
  "fileServerDown resp n req =
     (case req of
        Post url headers body \<Rightarrow> Inr resp
      | Get url \<Rightarrow> Inl (ErrorInstance ''Failed to fetch''))"

definition fileServerUp :: "response \<Rightarrow> world" where
  "fileServerUp resp n req =
     (case req of
        Post url headers body \<Rightarrow> Inr resp
      | Get url \<Rightarrow> Inr fileResponse)"

text \<open>
  A batch of five rows uploaded at one instant, the application state holding them with
  credentials entered, and a network whose service answers \<open>rate limited\<close> to the texts
  listed and inline audio to every other text.
\<close>

definition lineRow :: "string \<Rightarrow> string \<Rightarrow> ScriptRow" where
  "lineRow shot txt =
     \<lparr>Shot_Number = Some shot, Character = Some ''Neo'', voice_id = Some ''v1'',
      text' = Some txt, emotion = None\<rparr>"

definition fiveItems :: "ProcessingItem list" where
  "fiveItems =
     newItems (\<lambda>index. 42)
       [lineRow ''001'' ''one'', lineRow ''002'' ''two'', lineRow ''003'' ''three'',
        lineRow ''004'' ''four'', lineRow ''005'' ''five'']"

definition demoApp :: "ProcessingItem list \<Rightarrow> app" where
  "demoApp xs =
     \<lparr>items = xs, isProcessing = False, progress = \<lparr>current = 0, total = 0\<rparr>, error = None,
      app_apiKey = ''key'', app_groupId = ''group'', browser = freshBrowser\<rparr>"

definition failingFor :: "string list \<Rightarrow> world" where
  "failingFor bad n req =
     (case req of
        Post url headers body \<Rightarrow>
          (case payload_text body of
             None \<Rightarrow> Inr (inlineAudioResponse ''68656c6c6f'')
           | Some txt \<Rightarrow>
               if txt \<in> set bad then Inr rateLimitedResponse
               else Inr (inlineAudioResponse ''68656c6c6f''))
      | Get url \<Rightarrow> Inl (ErrorInstance ''Failed to fetch''))"

text \<open>
  A service that answers every text with the URL of an audio file of its own, on a file
  server that delivers, and a batch of two rows.
\<close>

definition remoteServer :: world where
  "remoteServer n req =
     (case req of
        Post url headers body \<Rightarrow>
          Inr (remoteAudioResponse
                 (''https://cdn.example/''
                  @ (case payload_text body of None \<Rightarrow> [] | Some t \<Rightarrow> t) @ ''.mp3''))
      | Get url \<Rightarrow> Inr fileResponse)"

definition twoItems :: "ProcessingItem list" where
  "twoItems = newItems (\<lambda>index. 42) [lineRow ''001'' ''one'', lineRow ''002'' ''two'']"

text \<open>The state after a first run over the five items, during which items 2 and 4 fail.\<close>

definition firstRun :: app where
  "firstRun = processBatch (failingFor [''two'', ''four'']) (demoApp fiveItems)"

section \<open>Invariants of the batch\<close>

text \<open>
  What holds of the items in every state the application reaches by uploads, runs and
  clears: the ids are pairwise distinct, only succeeded items carry an audio URL, and
  every audio URL an item carries is an entry of the object URL store.
\<close>

definition wellFormedBatch :: "app \<Rightarrow> bool" where
  "wellFormedBatch st =
     (distinct (map id' (items st))
      \<and> list_all (\<lambda>i. audioUrl i = None \<or> status i = Success) (items st)
      \<and> list_all (\<lambda>i. case audioUrl i of None \<Rightarrow> True
                        | Some u \<Rightarrow> u \<in> fst ` set (objectURLs (browser st))) (items st))"

text \<open>The number of succeeded items, as \<open>stats.success\<close> counts them.\<close>

definition succeededCount :: "ProcessingItem list \<Rightarrow> nat" where
  "succeededCount xs = length (filter (\<lambda>i. status i = Success) xs)"


section \<open>The hex decoder: what the loop computes\<close>

lemma hexLoop_eq:
  "even i \<Longrightarrow> length bytes = length hex div 2 \<Longrightarrow>
   hexLoop hex i bytes = take (i div 2) bytes @ map (byteAt hex) [i div 2..<length hex div 2]"
proof (induction hex i bytes rule: hexLoop.induct)
  case (1 hex i bytes)
  show ?case
  proof (cases "i < length hex")
    case False
    then have "length bytes \<le> i div 2" using 1(2,3) by (auto elim!: evenE)
    with False show ?thesis by (simp add: hexLoop.simps [of hex i])
  next
    case True
    let ?v = "parseInt16 (substring hex i (i + 2))"
    have IH: "hexLoop hex (i + 2) (setElement bytes (i div 2) ?v) =
       take ((i + 2) div 2) (setElement bytes (i div 2) ?v) @
       map (byteAt hex) [(i + 2) div 2..<length hex div 2]"
      using 1(1) [OF True] 1(2,3) by (simp add: setElement_def)
    show ?thesis
    proof (cases "i div 2 < length bytes")
      case inb: True
      have v: "toUint8 ?v = byteAt hex (i div 2)"
        using 1(2) by (auto simp: byteAt_def elim!: evenE)
      have "[i div 2..<length hex div 2] = i div 2 # [Suc (i div 2)..<length hex div 2]"
        using inb 1(3) by (simp add: upt_conv_Cons)
      then show ?thesis
        using True inb IH v
        by (simp add: hexLoop.simps [of hex i] setElement_def take_Suc_conv_app_nth)
    next
      case oob: False
      then show ?thesis
        using True IH 1(3) by (simp add: hexLoop.simps [of hex i] setElement_def)
    qed
  qed
qed

lemma hexToBytes_eq: "hexToBytes hex = map (byteAt hex) [0..<length hex div 2]"
  by (simp add: hexToBytes_def hexLoop_eq)

lemma hexDigit_hexChar: "d < 16 \<Longrightarrow> hexDigit (hexChar d) = Some d"
  by (simp add: hexDigit_def hexChar_def Let_def)

lemma hexChar_code: "d < 16 \<Longrightarrow> (of_char (hexChar d) :: nat) = (if d < 10 then 48 + d else 87 + d)"
  by (simp add: hexChar_def)

lemma char_eq_code: "c = c' \<longleftrightarrow> (of_char c :: nat) = of_char c'"
  by simp

lemma isWhiteSpace_code:
  "isWhiteSpace c \<longleftrightarrow> (of_char c :: nat) \<in> {9, 10, 11, 12, 13, 32, 160}"
  unfolding isWhiteSpace_def by (simp add: char_eq_code [of c])

lemma hexChar_not_ws: "d < 16 \<Longrightarrow> \<not> isWhiteSpace (hexChar d)"
  by (simp add: isWhiteSpace_code hexChar_code)

lemma hexChar_not_sign: "d < 16 \<Longrightarrow> hexChar d \<noteq> CHR ''-'' \<and> hexChar d \<noteq> CHR ''+''
    \<and> hexChar d \<noteq> CHR ''x'' \<and> hexChar d \<noteq> CHR ''X''"
  by (simp add: char_eq_code [of "hexChar d"] hexChar_code)

lemma parseInt16_pair:
  assumes "a < 16" "b < 16"
  shows "parseInt16 [hexChar a, hexChar b] = Some (int (16 * a + b))"
  using assms hexChar_not_sign [of a] hexChar_not_sign [of b]
  by (simp add: parseInt16_def hexChar_not_ws hexDigit_hexChar)

lemma byteToHex_decode: "toUint8 (parseInt16 (byteToHex b)) = b"
proof -
  have "unat b < 256" using unsigned_less [of b, where ?'a = nat] by simp
  then have "unat b div 16 < 16" "unat b mod 16 < 16" by simp_all
  then have "parseInt16 (byteToHex b) = Some (int (16 * (unat b div 16) + unat b mod 16))"
    unfolding byteToHex_def by (rule parseInt16_pair)
  then show ?thesis by (simp add: toUint8_def)
qed

lemma length_bytesToHex: "length (bytesToHex bs) = 2 * length bs"
  by (induction bs) (simp_all add: bytesToHex_def byteToHex_def)

lemma substring_bytesToHex:
  "j < length bs \<Longrightarrow> substring (bytesToHex bs) (2 * j) (2 * j + 2) = byteToHex (bs ! j)"
proof (induction bs arbitrary: j)
  case Nil then show ?case by simp
next
  case (Cons b bs)
  show ?case
  proof (cases j)
    case 0
    then show ?thesis by (simp add: substring_def bytesToHex_def byteToHex_def)
  next
    case (Suc k)
    with Cons.prems have k: "k < length bs" by simp
    have "substring (bytesToHex (b # bs)) (2 * j) (2 * j + 2) = substring (bytesToHex bs) (2 * k) (2 * k + 2)"
      using Suc k length_bytesToHex [of bs]
      by (simp add: substring_def bytesToHex_def byteToHex_def min_def max_def)
    then show ?thesis using Cons.IH [OF k] Suc by simp
  qed
qed

lemma hexToBytes_bytesToHex: "hexToBytes (bytesToHex bs) = bs"
proof (rule nth_equalityI)
  show "length (hexToBytes (bytesToHex bs)) = length bs"
    by (simp add: hexToBytes_eq length_bytesToHex)
next
  fix j assume "j < length (hexToBytes (bytesToHex bs))"
  then have j: "j < length bs" by (simp add: hexToBytes_eq length_bytesToHex)
  have "byteAt (bytesToHex bs) j = bs ! j"
    unfolding byteAt_def substring_bytesToHex [OF j] by (rule byteToHex_decode)
  with j show "hexToBytes (bytesToHex bs) ! j = bs ! j"
    by (simp add: hexToBytes_eq length_bytesToHex)
qed

lemmas hex_eval = hexToBytes_eq byteAt_def substring_def parseInt16_def isWhiteSpace_def
  hexDigit_def toUint8_def

section \<open>generateSpeech on a body of the declared shape\<close>

lemma truthyJ_JStr: "truthyJ (map_option JStr x) = truthy x"
  by (cases x) (simp_all add: truthy_def)

lemma toJson_readBaseResp:
  "readBaseResp (toJson j) =
     Inr (JObj [(''status_code'', JNum (status_code (base_resp j))),
                (''status_msg'', JStr (status_msg (base_resp j)))])"
  by (simp add: readBaseResp_def toJson_def split: option.splits)

lemma toJson_optChain:
  "optChain (toJson j) Audio = map_option JStr (Option.bind (data j) audio)"
  "optChain (toJson j) Audio_file = map_option JStr (Option.bind (data j) audio_file)"
  by (simp_all add: optChain_def toJson_def dataJson_def split: option.splits)

lemma generateSpeech_response:
  assumes "w (length (sent b)) (apiRequest tx v cfg m) = Inr resp"
  shows "generateSpeech w tx v cfg m b =
     (let b1 = b\<lparr>sent := sent b @ [apiRequest tx v cfg m]\<rparr> in
      if \<not> ok resp then (Inl (TransportError (http_status resp) (statusText resp)), b1)
      else (case json resp of
              Inl e \<Rightarrow> (Inl (Rejected e), b1)
            | Inr j \<Rightarrow>
                (case readBaseResp j of
                   Inl f \<Rightarrow> (Inl (engineError b f), b1)
                 | Inr br \<Rightarrow>
                     if getProp br Status_code \<noteq> Some (JNum 0)
                     then (case templateString (getProp br Status_msg) of
                             Inl f \<Rightarrow> (Inl (engineError b f), b1)
                           | Inr msg \<Rightarrow> (Inl (ServiceError msg), b1))
                     else if truthyJ (optChain j Audio)
                     then (case hexToBytesValue (the (optChain j Audio)) of
                             Inl f \<Rightarrow> (Inl (engineError b f), b1)
                           | Inr audioBytes \<Rightarrow> (Inr (Blob audioBytes ''audio/mp3''), b1))
                     else if truthyJ (optChain j Audio_file)
                     then (case toStr (the (optChain j Audio_file)) of
                             Inl f \<Rightarrow> (Inl (engineError b f), b1)
                           | Inr url \<Rightarrow> fetchAudioFile w url b1)
                     else (Inl NoAudioDataError, b1))))"
  using assms
  by (simp add: generateSpeech_def fetch_def Let_def engineError_def split: sum.splits)

lemma generateSpeech_declared:
  assumes "w (length (sent b)) (apiRequest tx v cfg m) = Inr resp" "ok resp"
    "json resp = Inr (toJson j)"
  shows "generateSpeech w tx v cfg m b =
     (let b1 = b\<lparr>sent := sent b @ [apiRequest tx v cfg m]\<rparr> in
      if status_code (base_resp j) \<noteq> 0
      then (Inl (ServiceError (status_msg (base_resp j))), b1)
      else if truthy (Option.bind (data j) audio)
      then (Inr (Blob (hexToBytes (the (Option.bind (data j) audio))) ''audio/mp3''), b1)
      else if truthy (Option.bind (data j) audio_file)
      then fetchAudioFile w (the (Option.bind (data j) audio_file)) b1
      else (Inl NoAudioDataError, b1))"
  using assms
  by (auto simp add: generateSpeech_response [where resp = resp] Let_def toJson_readBaseResp
      toJson_optChain truthyJ_JStr templateString_def hexToBytesValue_def truthy_def
      split: option.splits)

lemmas body_eval = toJson_def dataJson_def readBaseResp_def optChain_def hexToBytesValue_def
  templateString_def engineError_def


text \<open>
  C5. Encoding any byte sequence as two lowercase hexadecimal digits per byte and decoding
  the result with \<open>hexToBytes\<close> gives the byte sequence back; the bytes of \<open>hello\<close> encode
  as \<open>68656c6c6f\<close>, and decoding \<open>68656c6c6f\<close> gives the five ASCII bytes of \<open>hello\<close>.
\<close>

theorem hexToBytes_roundtrip:
  "hexToBytes (bytesToHex bs) = bs
   \<and> bytesToHex (map of_char ''hello'') = ''68656c6c6f''
   \<and> hexToBytes ''68656c6c6f'' = map of_char ''hello''"
proof (intro conjI)
  show "hexToBytes (bytesToHex bs) = bs" by (rule hexToBytes_bytesToHex)
  show "bytesToHex (map of_char ''hello'') = ''68656c6c6f''"
    by (simp add: bytesToHex_def byteToHex_def hexChar_def char_eq_code [of "char_of _"])
  show "hexToBytes ''68656c6c6f'' = map of_char ''hello''"
    by (simp add: hex_eval)
qed




section \<open>parseCSV\<close>

lemma keepRow_cleanRow: "keepRow (cleanRow r) = accepted r"
  by (simp add: keepRow_def cleanRow_def accepted_def truthy_def nonEmptyAfterTrim_def
      conj_ac split: option.splits)

lemma parseCSV_Complete: "parseCSV (Complete rows) = Inr (map cleanRow (filter accepted rows))"
  by (simp add: parseCSV_def filter_map o_def keepRow_cleanRow)

lemma length_filter_split: "length (filter P xs) + length (filter (\<lambda>x. \<not> P x) xs) = length xs"
  by (induction xs) simp_all

lemma rev_split_while:
  "xs = rev (dropWhile P (rev xs)) @ rev (takeWhile P (rev xs))"
proof -
  have "rev (dropWhile P (rev xs)) @ rev (takeWhile P (rev xs))
      = rev (takeWhile P (rev xs) @ dropWhile P (rev xs))"
    by (simp only: rev_append)
  also have "\<dots> = xs" by (simp only: takeWhile_dropWhile_id rev_rev_ident)
  finally show ?thesis by (rule sym)
qed

lemma trim_decompose:
  "\<exists>a b. s = a @ trim s @ b \<and> list_all isWhiteSpace a \<and> list_all isWhiteSpace b"
proof -
  let ?t = "dropWhile isWhiteSpace s"
  have t: "?t = trim s @ rev (takeWhile isWhiteSpace (rev ?t))"
    unfolding trim_def by (rule rev_split_while)
  have "s = takeWhile isWhiteSpace s @ ?t" by simp
  with t have "s = takeWhile isWhiteSpace s @ trim s @ rev (takeWhile isWhiteSpace (rev ?t))"
    by simp
  moreover have "list_all isWhiteSpace (takeWhile isWhiteSpace s)"
    by (simp add: list_all_iff) (meson set_takeWhileD)
  moreover have "list_all isWhiteSpace (rev (takeWhile isWhiteSpace (rev ?t)))"
    by (simp add: list_all_iff) (meson set_takeWhileD)
  ultimately show ?thesis by blast
qed

lemma trim_tight:
  "dropWhile isWhiteSpace (trim s) = trim s"
  "dropWhile isWhiteSpace (rev (trim s)) = rev (trim s)"
proof -
  let ?t = "dropWhile isWhiteSpace s"
  show "dropWhile isWhiteSpace (rev (trim s)) = rev (trim s)"
    by (simp add: trim_def)
  show "dropWhile isWhiteSpace (trim s) = trim s"
  proof (cases "trim s")
    case Nil
    then show ?thesis by simp
  next
    case (Cons c cs)
    have t: "?t = trim s @ rev (takeWhile isWhiteSpace (rev ?t))"
      unfolding trim_def by (rule rev_split_while)
    then have "?t = c # cs @ rev (takeWhile isWhiteSpace (rev ?t))" using Cons by simp
    then have "hd ?t = c" "?t \<noteq> []" by (metis list.sel(1), metis list.distinct(1))
    then have "\<not> isWhiteSpace c" using hd_dropWhile [of isWhiteSpace s] by simp
    then show ?thesis using Cons by simp
  qed
qed

text \<open>
  C6. \<open>parseCSV\<close> trims each of the five fields (\<open>Shot Number\<close>, \<open>Character\<close>, \<open>voice_id\<close>,
  \<open>text\<close>, \<open>emotion\<close>; an absent field stays absent) and keeps a record exactly when
  \<open>Character\<close>, \<open>voice_id\<close> and \<open>text\<close> are present and non-empty after trimming;
  \<open>Shot Number\<close> and \<open>emotion\<close> play no part in the decision. Trimming a string removes
  white space at its two ends and nothing else: the string is its trimmed form between
  two runs of white space, and the trimmed form neither starts nor ends with white space.
  The result holds the trimmed form of the kept records, in their order, and nothing for
  the others, and the kept and the dropped records together are all the input records.
  Evaluated on six records: one complete, one with a blank \<open>text\<close>, one without
  \<open>voice_id\<close>, one with white space (a tab, spaces, a line end) around every field, one
  without \<open>Shot Number\<close> and with a blank \<open>emotion\<close>, one with an empty \<open>Character\<close>.
\<close>

theorem parseCSV_accepts:
  "parseCSV (Complete rows) =
     Inr (map (\<lambda>r. \<lparr>Shot_Number = map_option trim (r ''Shot Number''),
                     Character = map_option trim (r ''Character''),
                     voice_id = map_option trim (r ''voice_id''),
                     text' = map_option trim (r ''text''),
                     emotion = map_option trim (r ''emotion'')\<rparr>)
            (filter accepted rows))
   \<and> (\<exists>a b. s = a @ trim s @ b \<and> list_all isWhiteSpace a \<and> list_all isWhiteSpace b)
   \<and> dropWhile isWhiteSpace (trim s) = trim s
   \<and> dropWhile isWhiteSpace (rev (trim s)) = rev (trim s)
   \<and> length (filter accepted rows) + length (filter (\<lambda>r. \<not> accepted r) rows) = length rows
   \<and> accepted r =
       ((case r ''Character'' of None \<Rightarrow> False | Some s \<Rightarrow> trim s \<noteq> [])
        \<and> (case r ''voice_id'' of None \<Rightarrow> False | Some s \<Rightarrow> trim s \<noteq> [])
        \<and> (case r ''text'' of None \<Rightarrow> False | Some s \<Rightarrow> trim s \<noteq> []))
   \<and> accepted (r(''Shot Number'' := shot, ''emotion'' := emo)) = accepted r
   \<and> parseCSV (Complete
        [neoRow,
         neoRow(''text'' \<mapsto> ''   ''),
         neoRow(''voice_id'' := None),
         [''Shot Number'' \<mapsto> CHR 0x09 # ''002  '', ''Character'' \<mapsto> '' Trinity '',
          ''voice_id'' \<mapsto> ''v2 '', ''text'' \<mapsto> '' Follow the  rabbit. '',
          ''emotion'' \<mapsto> '' calm'' @ [CHR 0x0D, CHR 0x0A]],
         [''Character'' \<mapsto> ''Morpheus'', ''voice_id'' \<mapsto> ''v3'', ''text'' \<mapsto> ''Hi'',
          ''emotion'' \<mapsto> ''  ''],
         neoRow(''Character'' \<mapsto> [])])
       = Inr [\<lparr>Shot_Number = Some ''001'', Character = Some ''Neo'', voice_id = Some ''v1'',
                text' = Some ''Hello'', emotion = None\<rparr>,
              \<lparr>Shot_Number = Some ''002'', Character = Some ''Trinity'', voice_id = Some ''v2'',
                text' = Some ''Follow the  rabbit.'', emotion = Some ''calm''\<rparr>,
              \<lparr>Shot_Number = None, Character = Some ''Morpheus'', voice_id = Some ''v3'',
                text' = Some ''Hi'', emotion = Some []\<rparr>]"
proof (intro conjI)
  show "parseCSV (Complete rows) =
     Inr (map (\<lambda>r. \<lparr>Shot_Number = map_option trim (r ''Shot Number''),
                     Character = map_option trim (r ''Character''),
                     voice_id = map_option trim (r ''voice_id''),
                     text' = map_option trim (r ''text''),
                     emotion = map_option trim (r ''emotion'')\<rparr>)
            (filter accepted rows))"
    by (simp add: parseCSV_Complete cleanRow_def cong: map_cong)
  show "\<exists>a b. s = a @ trim s @ b \<and> list_all isWhiteSpace a \<and> list_all isWhiteSpace b"
    by (rule trim_decompose)
  show "dropWhile isWhiteSpace (trim s) = trim s" by (rule trim_tight)
  show "dropWhile isWhiteSpace (rev (trim s)) = rev (trim s)" by (rule trim_tight)
  show "length (filter accepted rows) + length (filter (\<lambda>r. \<not> accepted r) rows) = length rows"
    by (rule length_filter_split)
  show "accepted r =
       ((case r ''Character'' of None \<Rightarrow> False | Some s \<Rightarrow> trim s \<noteq> [])
        \<and> (case r ''voice_id'' of None \<Rightarrow> False | Some s \<Rightarrow> trim s \<noteq> [])
        \<and> (case r ''text'' of None \<Rightarrow> False | Some s \<Rightarrow> trim s \<noteq> []))"
    by (simp add: accepted_def nonEmptyAfterTrim_def)
  show "accepted (r(''Shot Number'' := shot, ''emotion'' := emo)) = accepted r"
    by (simp add: accepted_def)
  show "parseCSV (Complete
        [neoRow,
         neoRow(''text'' \<mapsto> ''   ''),
         neoRow(''voice_id'' := None),
         [''Shot Number'' \<mapsto> CHR 0x09 # ''002  '', ''Character'' \<mapsto> '' Trinity '',
          ''voice_id'' \<mapsto> ''v2 '', ''text'' \<mapsto> '' Follow the  rabbit. '',
          ''emotion'' \<mapsto> '' calm'' @ [CHR 0x0D, CHR 0x0A]],
         [''Character'' \<mapsto> ''Morpheus'', ''voice_id'' \<mapsto> ''v3'', ''text'' \<mapsto> ''Hi'',
          ''emotion'' \<mapsto> ''  ''],
         neoRow(''Character'' \<mapsto> [])])
       = Inr [\<lparr>Shot_Number = Some ''001'', Character = Some ''Neo'', voice_id = Some ''v1'',
                text' = Some ''Hello'', emotion = None\<rparr>,
              \<lparr>Shot_Number = Some ''002'', Character = Some ''Trinity'', voice_id = Some ''v2'',
                text' = Some ''Follow the  rabbit.'', emotion = Some ''calm''\<rparr>,
              \<lparr>Shot_Number = None, Character = Some ''Morpheus'', voice_id = Some ''v3'',
                text' = Some ''Hi'', emotion = Some []\<rparr>]"
    by (simp add: parseCSV_def keepRow_def cleanRow_def truthy_def neoRow_def trim_def isWhiteSpace_def)
qed

section \<open>generateSpeech: response handling\<close>

lemma fetchAudioFile_fst:
  "fst (fetchAudioFile w url b) =
     (case w (length (sent b)) (Get url) of
        Inl e \<Rightarrow> Inl (Rejected e)
      | Inr audioRes \<Rightarrow> (case body_blob audioRes of Inl e \<Rightarrow> Inl (Rejected e) | Inr bl \<Rightarrow> Inr bl))"
  by (simp add: fetchAudioFile_def fetch_def split: sum.splits)

lemma fetchAudioFile_not_named:
  "fst (fetchAudioFile w url b) \<noteq> Inl (TransportError c t)"
  "fst (fetchAudioFile w url b) \<noteq> Inl (ServiceError t)"
  "fst (fetchAudioFile w url b) \<noteq> Inl NoAudioDataError"
  by (simp_all add: fetchAudioFile_fst split: sum.splits)

lemma hexToBytesValue_nonstring:
  assumes "\<forall>hex. v \<noteq> JStr hex"
  shows "hexToBytesValue v = Inr [] \<or> (\<exists>f. hexToBytesValue v = Inl f)"
  using assms
  by (cases v; simp add: hexToBytesValue_def split: sum.splits length_class.splits)

text \<open>
  C3, as stated, fails in its last clause. The transport status is a success, the embedded
  status code is 0 and a remote audio URL is present, so the claim promises an audio
  resource; but the file server is unreachable, the follow-up \<open>fetch\<close> rejects, and
  \<open>generateSpeech\<close> fails with that rejection. And the body \<open>{}\<close>, sent with a success
  status, has no \<open>base_resp\<close>: the read of \<open>json.base_resp.status_code\<close> throws the engine's
  \<open>TypeError\<close>, which is none of the three named failures, and no audio resource.
\<close>

theorem generateSpeech_remote_counterexample:
  "ok (remoteAudioResponse ''https://cdn.example/a.mp3'')
   \<and> (\<exists>j. json (remoteAudioResponse ''https://cdn.example/a.mp3'') = Inr (toJson j)
          \<and> status_code (base_resp j) = 0
          \<and> Option.bind (data j) audio_file = Some ''https://cdn.example/a.mp3'')
   \<and> fst (generateSpeech (fileServerDown (remoteAudioResponse ''https://cdn.example/a.mp3''))
             (Some ''Hello'') (Some ''v1'') demoConfig DEFAULT_MODEL freshBrowser)
       = Inl (Rejected (ErrorInstance ''Failed to fetch''))
   \<and> ok (bodyResponse (JObj [])) \<and> json (bodyResponse (JObj [])) = Inr (JObj [])
   \<and> fst (generateSpeech (always (bodyResponse (JObj [])))
             (Some ''Hello'') (Some ''v1'') demoConfig DEFAULT_MODEL freshBrowser)
       = Inl (Rejected (ErrorInstance (errorText freshBrowser (ReadOfUndefined Status_code))))"
proof (intro conjI)
  show "ok (remoteAudioResponse ''https://cdn.example/a.mp3'')"
    by (simp add: remoteAudioResponse_def ok_def)
  show "\<exists>j. json (remoteAudioResponse ''https://cdn.example/a.mp3'') = Inr (toJson j)
          \<and> status_code (base_resp j) = 0
          \<and> Option.bind (data j) audio_file = Some ''https://cdn.example/a.mp3''"
    unfolding remoteAudioResponse_def
    by (intro exI [of _ "\<lparr>base_resp = \<lparr>status_code = 0, status_msg = ''success''\<rparr>,
          data = Some \<lparr>audio = Some [], audio_file = Some ''https://cdn.example/a.mp3'',
                       data_status = 2\<rparr>\<rparr>"]) simp
  show "fst (generateSpeech (fileServerDown (remoteAudioResponse ''https://cdn.example/a.mp3''))
             (Some ''Hello'') (Some ''v1'') demoConfig DEFAULT_MODEL freshBrowser)
       = Inl (Rejected (ErrorInstance ''Failed to fetch''))"
    by (simp add: generateSpeech_def fetch_def fetchAudioFile_def fileServerDown_def
      remoteAudioResponse_def ok_def body_eval apiRequest_def freshBrowser_def)
  show "ok (bodyResponse (JObj []))" by (simp add: bodyResponse_def ok_def)
  show "json (bodyResponse (JObj [])) = Inr (JObj [])" by (simp add: bodyResponse_def)
  show "fst (generateSpeech (always (bodyResponse (JObj [])))
             (Some ''Hello'') (Some ''v1'') demoConfig DEFAULT_MODEL freshBrowser)
       = Inl (Rejected (ErrorInstance (errorText freshBrowser (ReadOfUndefined Status_code))))"
    by (simp add: generateSpeech_def fetch_def always_def bodyResponse_def ok_def body_eval)
qed

text \<open>
  C3, amended. For every response to the synthesis request, its body any JSON value
  (with integers for numbers): \<open>generateSpeech\<close> fails with the transport error, carrying the status code and status
  text, iff the transport status is not a success. Otherwise a body that does not parse as
  JSON makes it fail with the parser's rejection. For a parsed body of the declared shape
  it fails with the service error, carrying the embedded status message, iff the embedded
  status code is not 0; otherwise it fails with the no-audio-data error iff neither
  \<open>data.audio\<close> nor \<open>data.audio_file\<close> is present and non-empty; otherwise a non-empty
  \<open>data.audio\<close> is decoded and returned as an \<open>audio/mp3\<close> resource; otherwise the file
  named by \<open>data.audio_file\<close> is fetched, and the result is the body of that response, or
  the rejection of the \<open>fetch\<close> or of the body read. For a parsed body of any shape: the
  body \<open>null\<close>, and a body without \<open>base_resp\<close> or with \<open>base_resp\<close> \<open>null\<close>, make it fail with
  the engine's error for the property read; otherwise it fails with the service error,
  carrying the string form of \<open>base_resp.status_msg\<close>, iff \<open>base_resp.status_code\<close> is not
  the number 0 and the message has a string form (if it has none, the engine's error);
  otherwise it fails with the no-audio-data error iff neither \<open>data?.audio\<close> nor
  \<open>data?.audio_file\<close> is truthy; a non-empty string \<open>data.audio\<close> is decoded and returned; a
  truthy \<open>data.audio\<close> that is no string gives an empty \<open>audio/mp3\<close> resource or an error of
  the engine, as \<open>hexToBytes\<close> does on it; otherwise the string form of \<open>data.audio_file\<close>
  is fetched, with the results above.
\<close>

theorem generateSpeech_response_handling:
  assumes post: "w (length (sent b)) (apiRequest tx v cfg m) = Inr resp"
  defines "res \<equiv> fst (generateSpeech w tx v cfg m b)"
  shows "((\<exists>c t. res = Inl (TransportError c t)) \<longleftrightarrow> \<not> ok resp)
    \<and> (\<not> ok resp \<longrightarrow> res = Inl (TransportError (http_status resp) (statusText resp)))
    \<and> (\<forall>e. ok resp \<and> json resp = Inl e \<longrightarrow> res = Inl (Rejected e))
    \<and> (\<forall>j. ok resp \<and> json resp = Inr (toJson j) \<longrightarrow>
          ((\<exists>t. res = Inl (ServiceError t)) \<longleftrightarrow> status_code (base_resp j) \<noteq> 0)
        \<and> (status_code (base_resp j) \<noteq> 0 \<longrightarrow> res = Inl (ServiceError (status_msg (base_resp j))))
        \<and> (status_code (base_resp j) = 0 \<longrightarrow>
             (res = Inl NoAudioDataError \<longleftrightarrow>
                \<not> truthy (Option.bind (data j) audio) \<and> \<not> truthy (Option.bind (data j) audio_file))
           \<and> (truthy (Option.bind (data j) audio) \<longrightarrow>
                res = Inr (Blob (hexToBytes (the (Option.bind (data j) audio))) ''audio/mp3''))
           \<and> (\<not> truthy (Option.bind (data j) audio) \<and> truthy (Option.bind (data j) audio_file) \<longrightarrow>
                res = (case w (Suc (length (sent b))) (Get (the (Option.bind (data j) audio_file))) of
                         Inl e \<Rightarrow> Inl (Rejected e)
                       | Inr audioRes \<Rightarrow>
                           (case body_blob audioRes of
                              Inl e \<Rightarrow> Inl (Rejected e)
                            | Inr bl \<Rightarrow> Inr bl)))))
    \<and> (ok resp \<and> json resp = Inr JNull \<longrightarrow>
          res = Inl (Rejected (ErrorInstance (errorText b (ReadOfNull Base_resp)))))
    \<and> (\<forall>kvs. ok resp \<and> json resp = Inr (JObj kvs) \<and> map_of (rev kvs) ''base_resp'' = None \<longrightarrow>
          res = Inl (Rejected (ErrorInstance (errorText b (ReadOfUndefined Status_code)))))
    \<and> (\<forall>kvs. ok resp \<and> json resp = Inr (JObj kvs) \<and> map_of (rev kvs) ''base_resp'' = Some JNull \<longrightarrow>
          res = Inl (Rejected (ErrorInstance (errorText b (ReadOfNull Status_code)))))
    \<and> (\<forall>body f. ok resp \<and> json resp = Inr body \<and> readBaseResp body = Inl f \<longrightarrow>
          res = Inl (Rejected (ErrorInstance (errorText b f))))
    \<and> (\<forall>body br. ok resp \<and> json resp = Inr body \<and> readBaseResp body = Inr br \<longrightarrow>
          ((\<exists>t. res = Inl (ServiceError t)) \<longleftrightarrow>
             getProp br Status_code \<noteq> Some (JNum 0)
             \<and> (\<exists>t. templateString (getProp br Status_msg) = Inr t))
        \<and> (getProp br Status_code \<noteq> Some (JNum 0) \<longrightarrow>
             res = (case templateString (getProp br Status_msg) of
                      Inl f \<Rightarrow> Inl (Rejected (ErrorInstance (errorText b f)))
                    | Inr t \<Rightarrow> Inl (ServiceError t)))
        \<and> (getProp br Status_code = Some (JNum 0) \<longrightarrow>
             (res = Inl NoAudioDataError \<longleftrightarrow>
                \<not> truthyJ (optChain body Audio) \<and> \<not> truthyJ (optChain body Audio_file))
           \<and> (\<forall>hex. optChain body Audio = Some (JStr hex) \<and> hex \<noteq> [] \<longrightarrow>
                res = Inr (Blob (hexToBytes hex) ''audio/mp3''))
           \<and> (truthyJ (optChain body Audio) \<and> (\<forall>hex. optChain body Audio \<noteq> Some (JStr hex)) \<longrightarrow>
                res = (case hexToBytesValue (the (optChain body Audio)) of
                         Inl f \<Rightarrow> Inl (Rejected (ErrorInstance (errorText b f)))
                       | Inr audioBytes \<Rightarrow> Inr (Blob audioBytes ''audio/mp3''))
                \<and> (res = Inr (Blob [] ''audio/mp3'')
                    \<or> (\<exists>f. res = Inl (Rejected (ErrorInstance (errorText b f))))))
           \<and> (\<not> truthyJ (optChain body Audio) \<and> truthyJ (optChain body Audio_file) \<longrightarrow>
                res = (case toStr (the (optChain body Audio_file)) of
                         Inl f \<Rightarrow> Inl (Rejected (ErrorInstance (errorText b f)))
                       | Inr url \<Rightarrow>
                           (case w (Suc (length (sent b))) (Get url) of
                              Inl e \<Rightarrow> Inl (Rejected e)
                            | Inr audioRes \<Rightarrow>
                                (case body_blob audioRes of
                                   Inl e \<Rightarrow> Inl (Rejected e)
                                 | Inr bl \<Rightarrow> Inr bl))))))"
proof -
  note gs = generateSpeech_response [where w = w and b = b and resp = resp, OF post]
  note gd = generateSpeech_declared [where w = w and b = b and resp = resp, OF post]
  have transport: "((\<exists>c t. res = Inl (TransportError c t)) \<longleftrightarrow> \<not> ok resp)
      \<and> (\<not> ok resp \<longrightarrow> res = Inl (TransportError (http_status resp) (statusText resp)))
      \<and> (\<forall>e. ok resp \<and> json resp = Inl e \<longrightarrow> res = Inl (Rejected e))"
    unfolding res_def gs
    by (auto simp: Let_def engineError_def fetchAudioFile_not_named split: sum.splits)
  have declared: "\<forall>j. ok resp \<and> json resp = Inr (toJson j) \<longrightarrow>
          ((\<exists>t. res = Inl (ServiceError t)) \<longleftrightarrow> status_code (base_resp j) \<noteq> 0)
        \<and> (status_code (base_resp j) \<noteq> 0 \<longrightarrow> res = Inl (ServiceError (status_msg (base_resp j))))
        \<and> (status_code (base_resp j) = 0 \<longrightarrow>
             (res = Inl NoAudioDataError \<longleftrightarrow>
                \<not> truthy (Option.bind (data j) audio) \<and> \<not> truthy (Option.bind (data j) audio_file))
           \<and> (truthy (Option.bind (data j) audio) \<longrightarrow>
                res = Inr (Blob (hexToBytes (the (Option.bind (data j) audio))) ''audio/mp3''))
           \<and> (\<not> truthy (Option.bind (data j) audio) \<and> truthy (Option.bind (data j) audio_file) \<longrightarrow>
                res = (case w (Suc (length (sent b))) (Get (the (Option.bind (data j) audio_file))) of
                         Inl e \<Rightarrow> Inl (Rejected e)
                       | Inr audioRes \<Rightarrow>
                           (case body_blob audioRes of
                              Inl e \<Rightarrow> Inl (Rejected e)
                            | Inr bl \<Rightarrow> Inr bl))))"
    unfolding res_def
    by (auto simp: gd Let_def fetchAudioFile_not_named fetchAudioFile_fst split: sum.splits)
  have unreadable: "(ok resp \<and> json resp = Inr JNull \<longrightarrow>
          res = Inl (Rejected (ErrorInstance (errorText b (ReadOfNull Base_resp)))))
    \<and> (\<forall>kvs. ok resp \<and> json resp = Inr (JObj kvs) \<and> map_of (rev kvs) ''base_resp'' = None \<longrightarrow>
          res = Inl (Rejected (ErrorInstance (errorText b (ReadOfUndefined Status_code)))))
    \<and> (\<forall>kvs. ok resp \<and> json resp = Inr (JObj kvs) \<and> map_of (rev kvs) ''base_resp'' = Some JNull \<longrightarrow>
          res = Inl (Rejected (ErrorInstance (errorText b (ReadOfNull Status_code)))))
    \<and> (\<forall>body f. ok resp \<and> json resp = Inr body \<and> readBaseResp body = Inl f \<longrightarrow>
          res = Inl (Rejected (ErrorInstance (errorText b f))))"
    unfolding res_def gs
    by (auto simp: Let_def engineError_def readBaseResp_def)
  have readable: "\<forall>body br. ok resp \<and> json resp = Inr body \<and> readBaseResp body = Inr br \<longrightarrow>
          ((\<exists>t. res = Inl (ServiceError t)) \<longleftrightarrow>
             getProp br Status_code \<noteq> Some (JNum 0)
             \<and> (\<exists>t. templateString (getProp br Status_msg) = Inr t))
        \<and> (getProp br Status_code \<noteq> Some (JNum 0) \<longrightarrow>
             res = (case templateString (getProp br Status_msg) of
                      Inl f \<Rightarrow> Inl (Rejected (ErrorInstance (errorText b f)))
                    | Inr t \<Rightarrow> Inl (ServiceError t)))
        \<and> (getProp br Status_code = Some (JNum 0) \<longrightarrow>
             (res = Inl NoAudioDataError \<longleftrightarrow>
                \<not> truthyJ (optChain body Audio) \<and> \<not> truthyJ (optChain body Audio_file))
           \<and> (\<forall>hex. optChain body Audio = Some (JStr hex) \<and> hex \<noteq> [] \<longrightarrow>
                res = Inr (Blob (hexToBytes hex) ''audio/mp3''))
           \<and> (truthyJ (optChain body Audio) \<and> (\<forall>hex. optChain body Audio \<noteq> Some (JStr hex)) \<longrightarrow>
                res = (case hexToBytesValue (the (optChain body Audio)) of
                         Inl f \<Rightarrow> Inl (Rejected (ErrorInstance (errorText b f)))
                       | Inr audioBytes \<Rightarrow> Inr (Blob audioBytes ''audio/mp3''))
                \<and> (res = Inr (Blob [] ''audio/mp3'')
                    \<or> (\<exists>f. res = Inl (Rejected (ErrorInstance (errorText b f))))))
           \<and> (\<not> truthyJ (optChain body Audio) \<and> truthyJ (optChain body Audio_file) \<longrightarrow>
                res = (case toStr (the (optChain body Audio_file)) of
                         Inl f \<Rightarrow> Inl (Rejected (ErrorInstance (errorText b f)))
                       | Inr url \<Rightarrow>
                           (case w (Suc (length (sent b))) (Get url) of
                              Inl e \<Rightarrow> Inl (Rejected e)
                            | Inr audioRes \<Rightarrow>
                                (case body_blob audioRes of
                                   Inl e \<Rightarrow> Inl (Rejected e)
                                 | Inr bl \<Rightarrow> Inr bl)))))"
  proof (intro allI impI, elim conjE)
    fix body br
    assume h: "ok resp" "json resp = Inr body" "readBaseResp body = Inr br"
    have r: "res =
       (if getProp br Status_code \<noteq> Some (JNum 0)
        then (case templateString (getProp br Status_msg) of
                Inl f \<Rightarrow> Inl (Rejected (ErrorInstance (errorText b f)))
              | Inr msg \<Rightarrow> Inl (ServiceError msg))
        else if truthyJ (optChain body Audio)
        then (case hexToBytesValue (the (optChain body Audio)) of
                Inl f \<Rightarrow> Inl (Rejected (ErrorInstance (errorText b f)))
              | Inr audioBytes \<Rightarrow> Inr (Blob audioBytes ''audio/mp3''))
        else if truthyJ (optChain body Audio_file)
        then (case toStr (the (optChain body Audio_file)) of
                Inl f \<Rightarrow> Inl (Rejected (ErrorInstance (errorText b f)))
              | Inr url \<Rightarrow>
                  (case w (Suc (length (sent b))) (Get url) of
                     Inl e \<Rightarrow> Inl (Rejected e)
                   | Inr audioRes \<Rightarrow>
                       (case body_blob audioRes of
                          Inl e \<Rightarrow> Inl (Rejected e)
                        | Inr bl \<Rightarrow> Inr bl)))
        else Inl NoAudioDataError)"
      unfolding res_def gs using h
      by (simp add: Let_def engineError_def fetchAudioFile_fst split: sum.splits)
    have hv: "hexToBytesValue x = Inr [] \<or> (\<exists>f. hexToBytesValue x = Inl f)"
      if "\<forall>hex. x \<noteq> JStr hex" for x
      using hexToBytesValue_nonstring [of x] that by auto
    show "((\<exists>t. res = Inl (ServiceError t)) \<longleftrightarrow>
             getProp br Status_code \<noteq> Some (JNum 0)
             \<and> (\<exists>t. templateString (getProp br Status_msg) = Inr t))
        \<and> (getProp br Status_code \<noteq> Some (JNum 0) \<longrightarrow>
             res = (case templateString (getProp br Status_msg) of
                      Inl f \<Rightarrow> Inl (Rejected (ErrorInstance (errorText b f)))
                    | Inr t \<Rightarrow> Inl (ServiceError t)))
        \<and> (getProp br Status_code = Some (JNum 0) \<longrightarrow>
             (res = Inl NoAudioDataError \<longleftrightarrow>
                \<not> truthyJ (optChain body Audio) \<and> \<not> truthyJ (optChain body Audio_file))
           \<and> (\<forall>hex. optChain body Audio = Some (JStr hex) \<and> hex \<noteq> [] \<longrightarrow>
                res = Inr (Blob (hexToBytes hex) ''audio/mp3''))
           \<and> (truthyJ (optChain body Audio) \<and> (\<forall>hex. optChain body Audio \<noteq> Some (JStr hex)) \<longrightarrow>
                res = (case hexToBytesValue (the (optChain body Audio)) of
                         Inl f \<Rightarrow> Inl (Rejected (ErrorInstance (errorText b f)))
                       | Inr audioBytes \<Rightarrow> Inr (Blob audioBytes ''audio/mp3''))
                \<and> (res = Inr (Blob [] ''audio/mp3'')
                    \<or> (\<exists>f. res = Inl (Rejected (ErrorInstance (errorText b f))))))
           \<and> (\<not> truthyJ (optChain body Audio) \<and> truthyJ (optChain body Audio_file) \<longrightarrow>
                res = (case toStr (the (optChain body Audio_file)) of
                         Inl f \<Rightarrow> Inl (Rejected (ErrorInstance (errorText b f)))
                       | Inr url \<Rightarrow>
                           (case w (Suc (length (sent b))) (Get url) of
                              Inl e \<Rightarrow> Inl (Rejected e)
                            | Inr audioRes \<Rightarrow>
                                (case body_blob audioRes of
                                   Inl e \<Rightarrow> Inl (Rejected e)
                                 | Inr bl \<Rightarrow> Inr bl)))))"
    proof (intro conjI impI allI)
      show "(\<exists>t. res = Inl (ServiceError t)) \<longleftrightarrow>
             getProp br Status_code \<noteq> Some (JNum 0)
             \<and> (\<exists>t. templateString (getProp br Status_msg) = Inr t)"
        unfolding r by (auto split: sum.splits)
    next
      assume "getProp br Status_code \<noteq> Some (JNum 0)"
      then show "res = (case templateString (getProp br Status_msg) of
                      Inl f \<Rightarrow> Inl (Rejected (ErrorInstance (errorText b f)))
                    | Inr t \<Rightarrow> Inl (ServiceError t))"
        unfolding r by simp
    next
      assume "getProp br Status_code = Some (JNum 0)"
      then show "res = Inl NoAudioDataError \<longleftrightarrow>
                \<not> truthyJ (optChain body Audio) \<and> \<not> truthyJ (optChain body Audio_file)"
        unfolding r by (auto split: sum.splits)
    next
      fix hex
      assume "getProp br Status_code = Some (JNum 0)"
        "optChain body Audio = Some (JStr hex) \<and> hex \<noteq> []"
      then show "res = Inr (Blob (hexToBytes hex) ''audio/mp3'')"
        unfolding r by (simp add: hexToBytesValue_def)
    next
      assume a: "getProp br Status_code = Some (JNum 0)"
        "truthyJ (optChain body Audio) \<and> (\<forall>hex. optChain body Audio \<noteq> Some (JStr hex))"
      then show r2: "res = (case hexToBytesValue (the (optChain body Audio)) of
                         Inl f \<Rightarrow> Inl (Rejected (ErrorInstance (errorText b f)))
                       | Inr audioBytes \<Rightarrow> Inr (Blob audioBytes ''audio/mp3''))"
        unfolding r by simp
      from a obtain x where x: "optChain body Audio = Some x" "\<forall>hex. x \<noteq> JStr hex"
        by (cases "optChain body Audio") auto
      show "res = Inr (Blob [] ''audio/mp3'')
                    \<or> (\<exists>f. res = Inl (Rejected (ErrorInstance (errorText b f))))"
        unfolding r2 using hv [OF x(2)] x(1) by auto
    next
      assume "getProp br Status_code = Some (JNum 0)"
        "\<not> truthyJ (optChain body Audio) \<and> truthyJ (optChain body Audio_file)"
      then show "res = (case toStr (the (optChain body Audio_file)) of
                         Inl f \<Rightarrow> Inl (Rejected (ErrorInstance (errorText b f)))
                       | Inr url \<Rightarrow>
                           (case w (Suc (length (sent b))) (Get url) of
                              Inl e \<Rightarrow> Inl (Rejected e)
                            | Inr audioRes \<Rightarrow>
                                (case body_blob audioRes of
                                   Inl e \<Rightarrow> Inl (Rejected e)
                                 | Inr bl \<Rightarrow> Inr bl)))"
        unfolding r by simp
    qed
  qed
  show ?thesis
    using transport declared unreadable readable by (intro conjI) blast+
qed


text \<open>
  The amended C3 at a 503 response, at the embedded error 1002 \<open>rate limited\<close>, at a
  remote audio file that is delivered, at the bodies \<open>null\<close>, \<open>{}\<close> and \<open>{"base_resp": {}}\<close>,
  and at the inline audio values \<open>true\<close> and \<open>[1, 2]\<close>.
\<close>

theorem generateSpeech_response_handling_witness:
  "fst (generateSpeech (always unavailableResponse) (Some ''Hello'') (Some ''v1'') demoConfig
          DEFAULT_MODEL freshBrowser)
     = Inl (TransportError 503 ''Service Unavailable'')
   \<and> fst (generateSpeech (always rateLimitedResponse) (Some ''Hello'') (Some ''v1'') demoConfig
          DEFAULT_MODEL freshBrowser)
     = Inl (ServiceError ''rate limited'')
   \<and> fst (generateSpeech (fileServerUp (remoteAudioResponse ''https://cdn.example/a.mp3''))
          (Some ''Hello'') (Some ''v1'') demoConfig DEFAULT_MODEL freshBrowser)
     = Inr (Blob [0x68, 0x65, 0x6c, 0x6c, 0x6f] ''audio/mpeg'')
   \<and> fst (generateSpeech (always (bodyResponse JNull)) (Some ''Hello'') (Some ''v1'') demoConfig
          DEFAULT_MODEL freshBrowser)
     = Inl (Rejected (ErrorInstance
         (''Cannot read properties of null (reading '' @ [CHR 0x27] @ ''base_resp'' @ [CHR 0x27] @ '')'')))
   \<and> fst (generateSpeech (always (bodyResponse (JObj []))) (Some ''Hello'') (Some ''v1'') demoConfig
          DEFAULT_MODEL freshBrowser)
     = Inl (Rejected (ErrorInstance
         (''Cannot read properties of undefined (reading '' @ [CHR 0x27] @ ''status_code''
            @ [CHR 0x27] @ '')'')))
   \<and> fst (generateSpeech (always (bodyResponse (JObj [(''base_resp'', JObj [])])))
          (Some ''Hello'') (Some ''v1'') demoConfig DEFAULT_MODEL freshBrowser)
     = Inl (ServiceError ''undefined'')
   \<and> fst (generateSpeech (always (bodyResponse (successBody [(''audio'', JBool True)])))
          (Some ''Hello'') (Some ''v1'') demoConfig DEFAULT_MODEL freshBrowser)
     = Inr (Blob [] ''audio/mp3'')
   \<and> fst (generateSpeech (always (bodyResponse (successBody [(''audio'', JArr [JNum 1, JNum 2])])))
          (Some ''Hello'') (Some ''v1'') demoConfig DEFAULT_MODEL freshBrowser)
     = Inl (Rejected (ErrorInstance ''hex.substring is not a function''))"
  using
    generateSpeech_response_handling [of "always unavailableResponse" freshBrowser
      "Some ''Hello''" "Some ''v1''" demoConfig DEFAULT_MODEL unavailableResponse]
    generateSpeech_response_handling [of "always rateLimitedResponse" freshBrowser
      "Some ''Hello''" "Some ''v1''" demoConfig DEFAULT_MODEL rateLimitedResponse]
    generateSpeech_response_handling [of "fileServerUp (remoteAudioResponse ''https://cdn.example/a.mp3'')"
      freshBrowser "Some ''Hello''" "Some ''v1''" demoConfig DEFAULT_MODEL
      "remoteAudioResponse ''https://cdn.example/a.mp3''"]
    generateSpeech_response_handling [of "always (bodyResponse JNull)" freshBrowser
      "Some ''Hello''" "Some ''v1''" demoConfig DEFAULT_MODEL "bodyResponse JNull"]
    generateSpeech_response_handling [of "always (bodyResponse (JObj []))" freshBrowser
      "Some ''Hello''" "Some ''v1''" demoConfig DEFAULT_MODEL "bodyResponse (JObj [])"]
    generateSpeech_response_handling [of "always (bodyResponse (JObj [(''base_resp'', JObj [])]))"
      freshBrowser "Some ''Hello''" "Some ''v1''" demoConfig DEFAULT_MODEL
      "bodyResponse (JObj [(''base_resp'', JObj [])])"]
    generateSpeech_response_handling [of "always (bodyResponse (successBody [(''audio'', JBool True)]))"
      freshBrowser "Some ''Hello''" "Some ''v1''" demoConfig DEFAULT_MODEL
      "bodyResponse (successBody [(''audio'', JBool True)])"]
    generateSpeech_response_handling
      [of "always (bodyResponse (successBody [(''audio'', JArr [JNum 1, JNum 2])]))"
      freshBrowser "Some ''Hello''" "Some ''v1''" demoConfig DEFAULT_MODEL
      "bodyResponse (successBody [(''audio'', JArr [JNum 1, JNum 2])])"]
  by (simp add: always_def fileServerUp_def unavailableResponse_def rateLimitedResponse_def
      remoteAudioResponse_def fileResponse_def bodyResponse_def successBody_def ok_def truthy_def
      apiRequest_def freshBrowser_def body_eval magnitudeClass_def)



section \<open>processBatch: the loop, step by step\<close>

lemma fetchAudioFile_browser:
  "snd (fetchAudioFile w url b) = b\<lparr>sent := sent b @ [Get url]\<rparr>"
  by (simp add: fetchAudioFile_def fetch_def split: sum.splits)

lemma generateSpeech_browser:
  "\<exists>extra. snd (generateSpeech w tx v cfg m b) = b\<lparr>sent := sent b @ apiRequest tx v cfg m # extra\<rparr>
     \<and> filter isPost extra = []"
proof -
  have "snd (generateSpeech w tx v cfg m b) = b\<lparr>sent := sent b @ [apiRequest tx v cfg m]\<rparr>
      \<or> (\<exists>url. snd (generateSpeech w tx v cfg m b) = b\<lparr>sent := sent b @ [apiRequest tx v cfg m, Get url]\<rparr>)"
    by (auto simp: generateSpeech_def fetch_def fetchAudioFile_browser split: sum.splits)
  then show ?thesis
  proof
    assume "snd (generateSpeech w tx v cfg m b) = b\<lparr>sent := sent b @ [apiRequest tx v cfg m]\<rparr>"
    then show ?thesis by (intro exI [of _ "[]"]) simp
  next
    assume "\<exists>url. snd (generateSpeech w tx v cfg m b) = b\<lparr>sent := sent b @ [apiRequest tx v cfg m, Get url]\<rparr>"
    then obtain url where "snd (generateSpeech w tx v cfg m b) = b\<lparr>sent := sent b @ [apiRequest tx v cfg m, Get url]\<rparr>" ..
    then show ?thesis by (intro exI [of _ "[Get url]"]) simp
  qed
qed

lemma generateSpeech_store:
  "objectURLs (snd (generateSpeech w tx v cfg m b)) = objectURLs b"
  "minted (snd (generateSpeech w tx v cfg m b)) = minted b"
  using generateSpeech_browser [of w tx v cfg m b] by auto

lemma length_mark [simp]:
  "length (markLoading item xs) = length xs"
  "length (markSuccess item url xs) = length xs"
  "length (markError item msg xs) = length xs"
  by (simp_all add: markLoading_def markSuccess_def markError_def)

lemma ids_mark [simp]:
  "map id' (markLoading item xs) = map id' xs"
  "map id' (markSuccess item url xs) = map id' xs"
  "map id' (markError item msg xs) = map id' xs"
  by (simp_all add: markLoading_def markSuccess_def markError_def)

lemma processItem_items:
  "items (processItem w cfg item st) =
     map (\<lambda>i. if id' i = id' item
               then settle (outcome w cfg item st) (''blob:'' @ dec (minted (browser st))) i
               else i) (items st)"
proof -
  obtain r b1 where g: "generateSpeech w (text' (row item)) (voice_id (row item)) cfg DEFAULT_MODEL (browser st) = (r, b1)"
    by (cases "generateSpeech w (text' (row item)) (voice_id (row item)) cfg DEFAULT_MODEL (browser st)")
  have m: "minted b1 = minted (browser st)"
    using generateSpeech_store(2) [of w "text' (row item)" "voice_id (row item)" cfg DEFAULT_MODEL "browser st"] g by simp
  show ?thesis
    using g m
    by (cases r)
       (simp_all add: processItem_def outcome_def settle_def createObjectURL_def Let_def
          markLoading_def markSuccess_def markError_def)
qed

lemma processItem_browser:
  "browser (processItem w cfg item st) =
     (case generateSpeech w (text' (row item)) (voice_id (row item)) cfg DEFAULT_MODEL (browser st) of
        (Inr bl, b1) \<Rightarrow> snd (createObjectURL bl b1)
      | (Inl err, b1) \<Rightarrow> b1)"
  by (simp add: processItem_def Let_def split: prod.splits sum.splits)

lemma processItem_other:
  "isProcessing (processItem w cfg item st) = isProcessing st"
  "progress (processItem w cfg item st) = progress st"
  "error (processItem w cfg item st) = error st"
  "app_apiKey (processItem w cfg item st) = app_apiKey st"
  "app_groupId (processItem w cfg item st) = app_groupId st"
  by (simp_all add: processItem_def Let_def split: prod.splits sum.splits)

lemma processItem_ids: "map id' (items (processItem w cfg item st)) = map id' (items st)"
  by (simp add: processItem_items o_def settle_def split: sum.splits cong: map_cong) 


lemma batchLoop_append:
  "batchLoop w cfg (xs @ ys) n st = batchLoop w cfg ys (n + length xs) (batchLoop w cfg xs n st)"
  by (induction xs arbitrary: n st) (simp_all add: Let_def)

lemma batchLoop_ids: "map id' (items (batchLoop w cfg pend n st)) = map id' (items st)"
  by (induction pend arbitrary: n st) (simp_all add: Let_def processItem_ids)

lemma batchLoop_length: "length (items (batchLoop w cfg pend n st)) = length (items st)"
  using batchLoop_ids [of w cfg pend n st] by (metis length_map)

lemma batchLoop_creds:
  "app_apiKey (batchLoop w cfg pend n st) = app_apiKey st"
  "app_groupId (batchLoop w cfg pend n st) = app_groupId st"
  "error (batchLoop w cfg pend n st) = error st"
  "isProcessing (batchLoop w cfg pend n st) = isProcessing st"
  by (induction pend arbitrary: n st) (simp_all add: Let_def processItem_other)

lemma batchLoop_progress:
  "progress (batchLoop w cfg pend n st) =
     (if pend = [] then progress st else (progress st)\<lparr>current := n + length pend\<rparr>)"
  by (induction pend arbitrary: n st) (simp_all add: Let_def processItem_other)

lemma processItem_nth:
  "k < length (items st) \<Longrightarrow>
   items (processItem w cfg item st) ! k =
     (if id' (items st ! k) = id' item
      then settle (outcome w cfg item st) (''blob:'' @ dec (minted (browser st))) (items st ! k)
      else items st ! k)"
  by (simp add: processItem_items)

lemma batchLoop_frame:
  "k < length (items st) \<Longrightarrow> id' (items st ! k) \<notin> id' ` set pend \<Longrightarrow>
   items (batchLoop w cfg pend n st) ! k = items st ! k"
proof (induction pend arbitrary: n st)
  case Nil
  then show ?case by simp
next
  case (Cons item rest)
  let ?st1 = "processItem w cfg item st"
  let ?st2 = "?st1\<lparr>progress := (progress ?st1)\<lparr>current := n + 1\<rparr>\<rparr>"
  have same: "items ?st2 ! k = items st ! k"
    using Cons.prems by (simp add: processItem_nth)
  have len: "k < length (items ?st2)"
    using Cons.prems(1) by (simp add: processItem_items)
  have "items (batchLoop w cfg rest (n + 1) ?st2) ! k = items ?st2 ! k"
    using Cons.prems(2) same by (intro Cons.IH [OF len]) simp
  then show ?case using same by (simp add: Let_def)
qed


lemma batchLoop_item:
  assumes k: "k < length (items st)" and at: "items st ! k = item"
    and pre: "id' item \<notin> id' ` set pre" and post: "id' item \<notin> id' ` set post"
  shows "items (batchLoop w cfg (pre @ item # post) n st) ! k =
     settle (outcome w cfg item (batchLoop w cfg pre n st))
       (''blob:'' @ dec (minted (browser (batchLoop w cfg pre n st)))) item"
proof -
  let ?sp = "batchLoop w cfg pre n st"
  let ?s1 = "processItem w cfg item ?sp"
  let ?s2 = "?s1\<lparr>progress := (progress ?s1)\<lparr>current := n + length pre + 1\<rparr>\<rparr>"
  have kp: "k < length (items ?sp)" using k by (simp add: batchLoop_length)
  have atp: "items ?sp ! k = item" using batchLoop_frame [OF k, of pre w cfg n] at pre by simp
  have k2: "k < length (items ?s2)" using kp by (simp add: processItem_items)
  have at2: "items ?s2 ! k = settle (outcome w cfg item ?sp) (''blob:'' @ dec (minted (browser ?sp))) item"
    using kp atp by (simp add: processItem_nth)
  have id2: "id' (items ?s2 ! k) = id' item"
    unfolding at2 by (simp add: settle_def split: sum.splits)
  have "items (batchLoop w cfg post (n + length pre + 1) ?s2) ! k = items ?s2 ! k"
    using post id2 by (intro batchLoop_frame [OF k2]) simp
  then show ?thesis
    using at2 by (simp add: batchLoop_append Let_def)
qed

lemma batchLoop_settled:
  assumes "\<forall>i\<in>set (items st). id' i \<in> S \<longrightarrow> status i = Success \<or> status i = Error"
  shows "\<forall>i\<in>set (items (batchLoop w cfg pend n st)).
           id' i \<in> S \<union> id' ` set pend \<longrightarrow> status i = Success \<or> status i = Error"
  using assms
proof (induction pend arbitrary: n st S)
  case Nil
  then show ?case by simp
next
  case (Cons item rest)
  let ?st1 = "processItem w cfg item st"
  let ?st2 = "?st1\<lparr>progress := (progress ?st1)\<lparr>current := n + 1\<rparr>\<rparr>"
  have "\<forall>i\<in>set (items ?st2). id' i \<in> insert (id' item) S \<longrightarrow> status i = Success \<or> status i = Error"
    using Cons.prems by (auto simp: processItem_items settle_def split: sum.splits)
  from Cons.IH [OF this, of "n + 1"] show ?case by (simp add: Let_def)
qed

lemma processItem_posts:
  "posts (sent (browser (processItem w cfg item st))) =
   posts (sent (browser st)) @ [apiRequest (text' (row item)) (voice_id (row item)) cfg DEFAULT_MODEL]"
proof -
  obtain extra where e: "snd (generateSpeech w (text' (row item)) (voice_id (row item)) cfg DEFAULT_MODEL (browser st))
      = (browser st)\<lparr>sent := sent (browser st) @ apiRequest (text' (row item)) (voice_id (row item)) cfg DEFAULT_MODEL # extra\<rparr>"
    and f: "filter isPost extra = []"
    using generateSpeech_browser by blast
  have p: "isPost (apiRequest (text' (row item)) (voice_id (row item)) cfg DEFAULT_MODEL)"
    by (simp add: apiRequest_def Let_def)
  show ?thesis
    using e f p
    by (cases "generateSpeech w (text' (row item)) (voice_id (row item)) cfg DEFAULT_MODEL (browser st)")
       (auto simp: processItem_browser posts_def createObjectURL_def Let_def split: sum.splits)
qed

lemma batchLoop_posts:
  "posts (sent (browser (batchLoop w cfg pend n st))) =
   posts (sent (browser st)) @
     map (\<lambda>i. apiRequest (text' (row i)) (voice_id (row i)) cfg DEFAULT_MODEL) pend"
  by (induction pend arbitrary: n st) (simp_all add: Let_def processItem_posts)

lemma processItem_store:
  "\<exists>new. objectURLs (browser (processItem w cfg item st)) = objectURLs (browser st) @ new"
proof (cases "generateSpeech w (text' (row item)) (voice_id (row item)) cfg DEFAULT_MODEL (browser st)")
  case (Pair r b1)
  have "objectURLs b1 = objectURLs (browser st)"
    using generateSpeech_store(1) [of w "text' (row item)" "voice_id (row item)" cfg DEFAULT_MODEL "browser st"] Pair
    by simp
  then show ?thesis using Pair
    by (cases r) (simp_all add: processItem_browser createObjectURL_def Let_def)
qed

lemma batchLoop_store:
  "\<exists>new. objectURLs (browser (batchLoop w cfg pend n st)) = objectURLs (browser st) @ new"
proof (induction pend arbitrary: n st)
  case Nil
  then show ?case by simp
next
  case (Cons item rest)
  let ?st1 = "processItem w cfg item st"
  let ?st2 = "?st1\<lparr>progress := (progress ?st1)\<lparr>current := n + 1\<rparr>\<rparr>"
  obtain new1 where 1: "objectURLs (browser ?st2) = objectURLs (browser st) @ new1"
    using processItem_store [of w cfg item st] by auto
  obtain new2 where 2: "objectURLs (browser (batchLoop w cfg rest (n + 1) ?st2)) = objectURLs (browser ?st2) @ new2"
    using Cons.IH [of "n + 1" ?st2] by auto
  show ?case using 1 2 by (simp add: Let_def)
qed

section \<open>The five-item scenario, evaluated\<close>

lemma fiveItems_eq:
  "fiveItems =
     [\<lparr>id' = ''0-42'', row = lineRow ''001'' ''one'', status = Idle, audioUrl = None, errorMessage = None\<rparr>,
      \<lparr>id' = ''1-42'', row = lineRow ''002'' ''two'', status = Idle, audioUrl = None, errorMessage = None\<rparr>,
      \<lparr>id' = ''2-42'', row = lineRow ''003'' ''three'', status = Idle, audioUrl = None, errorMessage = None\<rparr>,
      \<lparr>id' = ''3-42'', row = lineRow ''004'' ''four'', status = Idle, audioUrl = None, errorMessage = None\<rparr>,
      \<lparr>id' = ''4-42'', row = lineRow ''005'' ''five'', status = Idle, audioUrl = None, errorMessage = None\<rparr>]"
  by (simp add: fiveItems_def newItems_def enumerate_eq_zip upt_rec dec.simps digitChar_def
      char_eq_code [of "char_of _"])

lemma generateSpeech_failingFor:
  "generateSpeech (failingFor bad) (Some tx) v cfg m b =
     (if tx \<in> set bad then Inl (ServiceError ''rate limited'')
      else Inr (Blob [0x68, 0x65, 0x6c, 0x6c, 0x6f] ''audio/mp3''),
      b\<lparr>sent := sent b @ [apiRequest (Some tx) v cfg m]\<rparr>)"
  by (simp add: generateSpeech_def fetch_def failingFor_def apiRequest_def mkPayload_def
      Let_def rateLimitedResponse_def inlineAudioResponse_def ok_def body_eval hex_eval)

lemma firstRun_creds: "app_apiKey firstRun = ''key''" "app_groupId firstRun = ''group''"
  "credentials firstRun = demoConfig"
  by (simp_all add: firstRun_def processBatch_def demoApp_def batchLoop_creds startBatch_def
      credentials_def demoConfig_def)

lemma dec_digit: "n < 10 \<Longrightarrow> dec n = [digitChar n]"
  by (simp add: dec.simps)

lemma processItem_failingFor:
  assumes "text' (row item) = Some tx"
  shows "processItem (failingFor bad) cfg item st =
    (if tx \<in> set bad
     then st\<lparr>items := markError item ''Minimax Error: rate limited'' (markLoading item (items st)),
             browser := (browser st)\<lparr>sent := sent (browser st) @
                [apiRequest (Some tx) (voice_id (row item)) cfg DEFAULT_MODEL]\<rparr>\<rparr>
     else st\<lparr>items := markSuccess item (''blob:'' @ dec (minted (browser st)))
                         (markLoading item (items st)),
             browser := (browser st)\<lparr>sent := sent (browser st) @
                [apiRequest (Some tx) (voice_id (row item)) cfg DEFAULT_MODEL],
                objectURLs := objectURLs (browser st) @
                  [(''blob:'' @ dec (minted (browser st)),
                    Blob [0x68, 0x65, 0x6c, 0x6c, 0x6f] ''audio/mp3'')],
                minted := minted (browser st) + 1\<rparr>\<rparr>)"
  using assms
  by (simp add: processItem_def generateSpeech_failingFor createObjectURL_def Let_def
      catchMessage_def)

lemma firstRun_items:
  "items firstRun =
     [\<lparr>id' = ''0-42'', row = lineRow ''001'' ''one'', status = Success,
       audioUrl = Some ''blob:0'', errorMessage = None\<rparr>,
      \<lparr>id' = ''1-42'', row = lineRow ''002'' ''two'', status = Error,
       audioUrl = None, errorMessage = Some ''Minimax Error: rate limited''\<rparr>,
      \<lparr>id' = ''2-42'', row = lineRow ''003'' ''three'', status = Success,
       audioUrl = Some ''blob:1'', errorMessage = None\<rparr>,
      \<lparr>id' = ''3-42'', row = lineRow ''004'' ''four'', status = Error,
       audioUrl = None, errorMessage = Some ''Minimax Error: rate limited''\<rparr>,
      \<lparr>id' = ''4-42'', row = lineRow ''005'' ''five'', status = Success,
       audioUrl = Some ''blob:2'', errorMessage = None\<rparr>]"
  by (simp add: firstRun_def processBatch_def demoApp_def fiveItems_eq pendingItems_def
      startBatch_def Let_def processItem_failingFor [where tx = "''one''"]
      processItem_failingFor [where tx = "''two''"] processItem_failingFor [where tx = "''three''"]
      processItem_failingFor [where tx = "''four''"] processItem_failingFor [where tx = "''five''"]
      lineRow_def markLoading_def markSuccess_def markError_def
      freshBrowser_def dec_digit digitChar_def char_eq_code [of "char_of _"])

section \<open>processBatch: the whole run\<close>

lemma pending_subset: "set (pendingItems xs) \<subseteq> set xs"
  by (auto simp: pendingItems_def)

lemma distinct_ids_pending: "distinct (map id' xs) \<Longrightarrow> distinct (map id' (pendingItems xs))"
  by (simp add: pendingItems_def distinct_map_filter)

lemma distinct_ids_nth:
  assumes "distinct (map id' xs)" "k < length xs" "p \<in> set xs" "id' p = id' (xs ! k)"
  shows "p = xs ! k"
proof -
  from assms(3) obtain m where m: "m < length xs" "xs ! m = p" by (auto simp: in_set_conv_nth)
  have "map id' xs ! m = map id' xs ! k" using m assms(2,4) by simp
  then have "m = k"
    using nth_eq_iff_index_eq [of "map id' xs" m k] assms(1,2) m(1) by simp
  with m show ?thesis by simp
qed

lemma succeeded_not_pending:
  assumes "distinct (map id' xs)" "k < length xs" "status (xs ! k) = Success"
  shows "id' (xs ! k) \<notin> id' ` set (pendingItems xs)"
proof
  assume "id' (xs ! k) \<in> id' ` set (pendingItems xs)"
  then obtain p where p: "p \<in> set (pendingItems xs)" "id' p = id' (xs ! k)" by auto
  then have "p = xs ! k" using distinct_ids_nth [OF assms(1,2)] pending_subset by auto
  with p(1) assms(3) show False by (simp add: pendingItems_def)
qed

lemma processBatch_items:
  "items (processBatch w st) =
     (if app_apiKey st = [] \<or> app_groupId st = [] then items st
      else items (batchLoop w (credentials st) (pendingItems (items st)) 0 (startBatch st)))"
  by (simp add: processBatch_def)

lemma processBatch_browser:
  "browser (processBatch w st) =
     (if app_apiKey st = [] \<or> app_groupId st = [] then browser st
      else browser (batchLoop w (credentials st) (pendingItems (items st)) 0 (startBatch st)))"
  by (simp add: processBatch_def)

lemma startBatch_simps [simp]:
  "items (startBatch st) = items st" "browser (startBatch st) = browser st"
  by (simp_all add: startBatch_def)

text \<open>
  C9. A run of \<open>processBatch\<close> leaves every item that is succeeded when the run starts as
  it is (status, audio URL, error message and row), given that the ids of the batch are
  pairwise distinct, as \<open>handleFileUpload\<close> makes them; the number of items never changes;
  and over a batch whose items are all succeeded the run selects nothing, changes no
  item, issues no request and creates no object URL.
\<close>

theorem processBatch_frame_succeeded:
  "(distinct (map id' (items st)) \<longrightarrow>
      (\<forall>k<length (items st). status (items st ! k) = Success \<longrightarrow>
         items (processBatch w st) ! k = items st ! k))
   \<and> length (items (processBatch w st)) = length (items st)
   \<and> ((\<forall>i\<in>set (items st). status i = Success) \<longrightarrow>
        pendingItems (items st) = [] \<and> items (processBatch w st) = items st
        \<and> browser (processBatch w st) = browser st)"
proof (intro conjI impI allI)
  fix k
  assume d: "distinct (map id' (items st))" and k: "k < length (items st)"
    and s: "status (items st ! k) = Success"
  have "id' (items (startBatch st) ! k) \<notin> id' ` set (pendingItems (items st))"
    using succeeded_not_pending [OF d k s] by simp
  then have "items (batchLoop w (credentials st) (pendingItems (items st)) 0 (startBatch st)) ! k
      = items (startBatch st) ! k"
    using k by (intro batchLoop_frame) simp_all
  then show "items (processBatch w st) ! k = items st ! k"
    by (simp add: processBatch_items)
next
  show "length (items (processBatch w st)) = length (items st)"
    by (simp add: processBatch_items batchLoop_length)
next
  assume all: "\<forall>i\<in>set (items st). status i = Success"
  then show "pendingItems (items st) = []"
    by (auto simp: pendingItems_def filter_empty_conv)
  then show "items (processBatch w st) = items st" "browser (processBatch w st) = browser st"
    by (simp_all add: processBatch_items processBatch_browser)
qed

lemma processItem_store_success:
  assumes "outcome w cfg item st = Inr bl"
  shows "objectURLs (browser (processItem w cfg item st)) =
     objectURLs (browser st) @ [(''blob:'' @ dec (minted (browser st)), bl)]"
proof (cases "generateSpeech w (text' (row item)) (voice_id (row item)) cfg DEFAULT_MODEL (browser st)")
  case (Pair r b1)
  have "objectURLs b1 = objectURLs (browser st)" "minted b1 = minted (browser st)"
    using generateSpeech_store [of w "text' (row item)" "voice_id (row item)" cfg DEFAULT_MODEL "browser st"] Pair
    by simp_all
  moreover have "r = Inr bl" using assms Pair by (simp add: outcome_def)
  ultimately show ?thesis using Pair
    by (simp add: processItem_browser createObjectURL_def Let_def)
qed

lemma batchLoop_item_store:
  assumes "outcome w cfg item (batchLoop w cfg pre n st) = Inr bl"
  shows "(''blob:'' @ dec (minted (browser (batchLoop w cfg pre n st))), bl)
     \<in> set (objectURLs (browser (batchLoop w cfg (pre @ item # post) n st)))"
proof -
  let ?sp = "batchLoop w cfg pre n st"
  let ?s1 = "processItem w cfg item ?sp"
  let ?s2 = "?s1\<lparr>progress := (progress ?s1)\<lparr>current := n + length pre + 1\<rparr>\<rparr>"
  have 1: "objectURLs (browser ?s2) =
      objectURLs (browser ?sp) @ [(''blob:'' @ dec (minted (browser ?sp)), bl)]"
    using processItem_store_success [OF assms] by simp
  obtain new where 2: "objectURLs (browser (batchLoop w cfg post (n + length pre + 1) ?s2))
      = objectURLs (browser ?s2) @ new"
    using batchLoop_store [of w cfg post "n + length pre + 1" ?s2] by auto
  show ?thesis using 1 2 by (simp add: batchLoop_append Let_def)
qed

lemma pending_split_ids:
  assumes "distinct (map id' xs)" "pendingItems xs = pre @ item # post"
  shows "id' item \<notin> id' ` set pre" "id' item \<notin> id' ` set post"
proof -
  have "distinct (map id' (pre @ item # post))"
    using distinct_ids_pending [OF assms(1)] assms(2) by simp
  then show "id' item \<notin> id' ` set pre" "id' item \<notin> id' ` set post" by auto
qed

text \<open>
  C7. Take an item of a batch with distinct ids whose status is failed, with an error
  message attached. A run with credentials selects it; if the \<open>generateSpeech\<close> call made
  for it when the loop reaches it returns a blob, then after the run the item is
  succeeded, carries the URL of an object URL store entry that holds this blob, and its
  error message is gone; nothing else of the item has changed.
\<close>

theorem processBatch_retry_converges:
  assumes creds: "app_apiKey st \<noteq> []" "app_groupId st \<noteq> []"
    and ids: "distinct (map id' (items st))"
    and k: "k < length (items st)" "items st ! k = item"
    and failed: "status item = Error" "errorMessage item = Some msg"
    and sel: "pendingItems (items st) = pre @ item # post"
    and succeeds: "outcome w (credentials st) item
                     (batchLoop w (credentials st) pre 0 (startBatch st)) = Inr bl"
  shows "\<exists>url. items (processBatch w st) ! k
               = item\<lparr>status := Success, audioUrl := Some url, errorMessage := None\<rparr>
             \<and> (url, bl) \<in> set (objectURLs (browser (processBatch w st)))"
proof -
  let ?sp = "batchLoop w (credentials st) pre 0 (startBatch st)"
  let ?url = "''blob:'' @ dec (minted (browser ?sp))"
  have "items (batchLoop w (credentials st) (pre @ item # post) 0 (startBatch st)) ! k
      = settle (outcome w (credentials st) item ?sp) ?url item"
    using k pending_split_ids [OF ids sel] by (intro batchLoop_item) simp_all
  then have 1: "items (processBatch w st) ! k
      = item\<lparr>status := Success, audioUrl := Some ?url, errorMessage := None\<rparr>"
    using creds sel succeeds by (simp add: processBatch_items settle_def)
  have 2: "(?url, bl) \<in> set (objectURLs (browser (processBatch w st)))"
    using creds sel batchLoop_item_store [OF succeeds, of post] by (simp add: processBatch_browser)
  from 1 2 show ?thesis by blast
qed


lemma batchLoop_id_nth:
  "k < length (items st) \<Longrightarrow> id' (items (batchLoop w cfg pend n st) ! k) = id' (items st ! k)"
proof -
  assume k: "k < length (items st)"
  have "map id' (items (batchLoop w cfg pend n st)) ! k = map id' (items st) ! k"
    by (simp add: batchLoop_ids)
  then show ?thesis using k by (simp add: batchLoop_length)
qed

lemma batchLoop_no_idle:
  "\<forall>i\<in>set (items (batchLoop w cfg (pendingItems (items st)) n st)). status i \<noteq> Idle"
proof
  fix i
  let ?fin = "batchLoop w cfg (pendingItems (items st)) n st"
  assume "i \<in> set (items ?fin)"
  then obtain k where k: "k < length (items st)" and i: "items ?fin ! k = i"
    by (auto simp: in_set_conv_nth batchLoop_length)
  show "status i \<noteq> Idle"
  proof (cases "id' (items st ! k) \<in> id' ` set (pendingItems (items st))")
    case True
    then have "id' i \<in> {} \<union> id' ` set (pendingItems (items st))"
      using batchLoop_id_nth [OF k, of w cfg "pendingItems (items st)" n] i by simp
    moreover have "i \<in> set (items ?fin)"
      using k i by (auto simp: in_set_conv_nth batchLoop_length)
    ultimately have "status i = Success \<or> status i = Error"
      using batchLoop_settled [of st "{}" w cfg "pendingItems (items st)" n] by blast
    then show ?thesis by auto
  next
    case False
    then have same: "items ?fin ! k = items st ! k" using k by (intro batchLoop_frame)
    have "items st ! k \<notin> set (pendingItems (items st))" using False by auto
    then have "status (items st ! k) \<noteq> Idle" using k by (simp add: pendingItems_def)
    with same i show ?thesis by simp
  qed
qed

lemma processBatch_no_idle:
  assumes "app_apiKey st \<noteq> []" "app_groupId st \<noteq> []"
  shows "\<forall>i\<in>set (items (processBatch w st)). status i \<noteq> Idle"
  using assms batchLoop_no_idle [of w "credentials st" "startBatch st" 0]
  by (simp add: processBatch_items)

lemma processBatch_posts:
  assumes "app_apiKey st \<noteq> []" "app_groupId st \<noteq> []"
  shows "posts (sent (browser (processBatch w st))) =
    posts (sent (browser st)) @
      map (\<lambda>i. apiRequest (text' (row i)) (voice_id (row i)) (credentials st) DEFAULT_MODEL)
        (pendingItems (items st))"
  using assms by (simp add: processBatch_browser batchLoop_posts)





section \<open>processBatch: one item at a time\<close>

lemma fetch_log:
  assumes "sent b' = sent b"
  shows "fst (fetch w req b') = fst (fetch w req b)"
    and "sent (snd (fetch w req b')) = sent (snd (fetch w req b))"
    and "sent (snd (fetch w req b)) = sent b @ [req]"
    and "errorText (snd (fetch w req b)) = errorText b"
  using assms by (simp_all add: fetch_def split: sum.splits)

lemma fetchAudioFile_log:
  assumes "sent b' = sent b"
  shows "fst (fetchAudioFile w url b') = fst (fetchAudioFile w url b)"
    and "sent (snd (fetchAudioFile w url b')) = sent (snd (fetchAudioFile w url b))"
    and "errorText (snd (fetchAudioFile w url b)) = errorText b"
  using assms by (simp_all add: fetchAudioFile_def fetch_def split: sum.splits)

lemma generateSpeech_log:
  assumes "sent b' = sent b" "errorText b' = errorText b"
  shows "fst (generateSpeech w tx v cfg m b') = fst (generateSpeech w tx v cfg m b)"
    and "sent (snd (generateSpeech w tx v cfg m b')) = sent (snd (generateSpeech w tx v cfg m b))"
    and "errorText (snd (generateSpeech w tx v cfg m b)) = errorText b"
proof -
  let ?req = "apiRequest tx v cfg m"
  let ?b1 = "b\<lparr>sent := sent b @ [?req]\<rparr>" and ?b1' = "b'\<lparr>sent := sent b' @ [?req]\<rparr>"
  have s1: "sent ?b1' = sent ?b1" using assms by simp
  note fa = fetchAudioFile_log [OF s1]
  show "fst (generateSpeech w tx v cfg m b') = fst (generateSpeech w tx v cfg m b)"
    using assms fa(1)
    by (cases "w (length (sent b)) ?req")
       (simp_all add: generateSpeech_response [where resp = "projr (w (length (sent b)) ?req)"] Let_def
          engineError_def generateSpeech_def fetch_def split: sum.splits)
  show "sent (snd (generateSpeech w tx v cfg m b')) = sent (snd (generateSpeech w tx v cfg m b))"
    using assms fa(2)
    by (cases "w (length (sent b)) ?req")
       (simp_all add: generateSpeech_response [where resp = "projr (w (length (sent b)) ?req)"] Let_def
          engineError_def generateSpeech_def fetch_def split: sum.splits)
  show "errorText (snd (generateSpeech w tx v cfg m b)) = errorText b"
    using fetchAudioFile_log(3) [of ?b1 ?b1 w]
    by (cases "w (length (sent b)) ?req")
       (simp_all add: generateSpeech_response [where resp = "projr (w (length (sent b)) ?req)"] Let_def
          engineError_def generateSpeech_def fetch_def split: sum.splits)
qed

lemma generateSpeech_sent:
  "sent (snd (generateSpeech w tx v cfg m b)) = sent b @ [apiRequest tx v cfg m]
   \<or> (\<exists>url. sent (snd (generateSpeech w tx v cfg m b)) = sent b @ [apiRequest tx v cfg m, Get url])"
  by (auto simp: generateSpeech_def fetch_def fetchAudioFile_browser split: sum.splits)

lemma oneAtATime_log:
  assumes "sent b' = sent b" "errorText b' = errorText b"
  shows "fst (oneAtATime w cfg xs b') = fst (oneAtATime w cfg xs b)
    \<and> sent (snd (oneAtATime w cfg xs b')) = sent (snd (oneAtATime w cfg xs b))"
  using assms
proof (induction xs arbitrary: b b')
  case Nil
  then show ?case by simp
next
  case (Cons item rest)
  let ?g = "generateSpeech w (text' (row item)) (voice_id (row item)) cfg DEFAULT_MODEL"
  have 1: "fst (?g b') = fst (?g b)" "sent (snd (?g b')) = sent (snd (?g b))"
    using generateSpeech_log(1,2) [OF Cons.prems] by simp_all
  have 2: "errorText (snd (?g b')) = errorText (snd (?g b))"
    using generateSpeech_log(3) [of b' b' w] generateSpeech_log(3) [of b b w] Cons.prems(2)
    by simp
  from Cons.IH [OF 1(2) 2] 1 show ?case
    by (simp add: split_beta)
qed

lemma oneAtATime_errorText:
  "errorText (snd (oneAtATime w cfg xs b)) = errorText b"
proof (induction xs arbitrary: b)
  case Nil
  then show ?case by simp
next
  case (Cons item rest)
  then show ?case
    using generateSpeech_log(3) [of b b w "text' (row item)" "voice_id (row item)" cfg DEFAULT_MODEL]
    by (simp add: split_beta)
qed

lemma oneAtATime_append:
  "oneAtATime w cfg (xs @ ys) b =
     (fst (oneAtATime w cfg xs b) @ fst (oneAtATime w cfg ys (snd (oneAtATime w cfg xs b))),
      snd (oneAtATime w cfg ys (snd (oneAtATime w cfg xs b))))"
  by (induction xs arbitrary: b) (simp_all add: split_beta)

lemma length_oneAtATime: "length (fst (oneAtATime w cfg xs b)) = length xs"
  by (induction xs arbitrary: b) (simp_all add: split_beta)

lemma oneAtATime_nth:
  "fst (oneAtATime w cfg (pre @ item # post) b) ! length pre =
     fst (generateSpeech w (text' (row item)) (voice_id (row item)) cfg DEFAULT_MODEL
            (snd (oneAtATime w cfg pre b)))"
  by (simp add: oneAtATime_append nth_append length_oneAtATime split_beta)

lemma oneAtATime_chunks:
  "\<exists>chunks. sent (snd (oneAtATime w cfg xs b)) = sent b @ concat chunks
     \<and> list_all2 (\<lambda>i c. c = [apiRequest (text' (row i)) (voice_id (row i)) cfg DEFAULT_MODEL]
                      \<or> (\<exists>url. c = [apiRequest (text' (row i)) (voice_id (row i)) cfg DEFAULT_MODEL,
                                     Get url])) xs chunks"
proof (induction xs arbitrary: b)
  case Nil
  then show ?case by simp
next
  case (Cons item rest)
  let ?g = "generateSpeech w (text' (row item)) (voice_id (row item)) cfg DEFAULT_MODEL"
  let ?req = "apiRequest (text' (row item)) (voice_id (row item)) cfg DEFAULT_MODEL"
  obtain c where c: "sent (snd (?g b)) = sent b @ c" "c = [?req] \<or> (\<exists>url. c = [?req, Get url])"
    using generateSpeech_sent [of w "text' (row item)" "voice_id (row item)" cfg DEFAULT_MODEL b]
    by auto
  obtain chunks where ch: "sent (snd (oneAtATime w cfg rest (snd (?g b)))) = sent (snd (?g b)) @ concat chunks"
    "list_all2 (\<lambda>i c. c = [apiRequest (text' (row i)) (voice_id (row i)) cfg DEFAULT_MODEL]
                      \<or> (\<exists>url. c = [apiRequest (text' (row i)) (voice_id (row i)) cfg DEFAULT_MODEL,
                                     Get url])) rest chunks"
    using Cons.IH [of "snd (?g b)"] by blast
  show ?case
    using c ch by (intro exI [of _ "c # chunks"]) (simp add: split_beta)
qed

lemma processItem_log:
  "sent (browser (processItem w cfg item st)) =
     sent (snd (generateSpeech w (text' (row item)) (voice_id (row item)) cfg DEFAULT_MODEL (browser st)))"
  "errorText (browser (processItem w cfg item st)) = errorText (browser st)"
proof -
  obtain r b1 where g: "generateSpeech w (text' (row item)) (voice_id (row item)) cfg DEFAULT_MODEL (browser st) = (r, b1)"
    by (cases "generateSpeech w (text' (row item)) (voice_id (row item)) cfg DEFAULT_MODEL (browser st)")
  have e: "errorText b1 = errorText (browser st)"
    using generateSpeech_log(3) [of "browser st" "browser st" w "text' (row item)" "voice_id (row item)" cfg DEFAULT_MODEL] g
    by simp
  show "sent (browser (processItem w cfg item st)) =
     sent (snd (generateSpeech w (text' (row item)) (voice_id (row item)) cfg DEFAULT_MODEL (browser st)))"
    using g by (cases r) (simp_all add: processItem_browser createObjectURL_def Let_def)
  show "errorText (browser (processItem w cfg item st)) = errorText (browser st)"
    using g e by (cases r) (simp_all add: processItem_browser createObjectURL_def Let_def)
qed

lemma batchLoop_log:
  "sent (browser (batchLoop w cfg pend n st)) = sent (snd (oneAtATime w cfg pend (browser st)))
   \<and> errorText (browser (batchLoop w cfg pend n st)) = errorText (browser st)"
proof (induction pend arbitrary: n st)
  case Nil
  then show ?case by simp
next
  case (Cons item rest)
  let ?g = "generateSpeech w (text' (row item)) (voice_id (row item)) cfg DEFAULT_MODEL"
  let ?st1 = "processItem w cfg item st"
  let ?st2 = "?st1\<lparr>progress := (progress ?st1)\<lparr>current := n + 1\<rparr>\<rparr>"
  have s: "sent (browser ?st2) = sent (snd (?g (browser st)))"
    and e: "errorText (browser ?st2) = errorText (snd (?g (browser st)))"
    using processItem_log [of w cfg item st]
      generateSpeech_log(3) [of "browser st" "browser st" w "text' (row item)" "voice_id (row item)" cfg DEFAULT_MODEL]
    by simp_all
  have "sent (snd (oneAtATime w cfg rest (browser ?st2))) = sent (snd (oneAtATime w cfg rest (snd (?g (browser st)))))"
    using oneAtATime_log [OF s e] by simp
  moreover have "errorText (browser ?st2) = errorText (browser st)"
    using processItem_log(2) [of w cfg item st] by simp
  ultimately show ?case
    using Cons.IH [of "n + 1" ?st2] by (simp add: Let_def split_beta)
qed

lemma outcome_serial:
  "outcome w cfg item (batchLoop w cfg pre n st) =
     fst (oneAtATime w cfg (pre @ item # post) (browser st)) ! length pre"
  unfolding oneAtATime_nth outcome_def
  using batchLoop_log [of w cfg pre n st] oneAtATime_errorText [of w cfg pre "browser st"]
  by (intro generateSpeech_log(1)) simp_all


lemma generateSpeech_remoteServer:
  "generateSpeech remoteServer (Some tx) v cfg m b =
     (Inr (Blob [0x68, 0x65, 0x6c, 0x6c, 0x6f] ''audio/mpeg''),
      b\<lparr>sent := sent b @ [apiRequest (Some tx) v cfg m, Get (''https://cdn.example/'' @ tx @ ''.mp3'')]\<rparr>)"
  by (simp add: generateSpeech_def fetch_def fetchAudioFile_def remoteServer_def apiRequest_def
      mkPayload_def Let_def remoteAudioResponse_def fileResponse_def ok_def body_eval)

lemma twoItems_eq:
  "twoItems =
     [\<lparr>id' = ''0-42'', row = lineRow ''001'' ''one'', status = Idle, audioUrl = None, errorMessage = None\<rparr>,
      \<lparr>id' = ''1-42'', row = lineRow ''002'' ''two'', status = Idle, audioUrl = None, errorMessage = None\<rparr>]"
  by (simp add: twoItems_def newItems_def enumerate_eq_zip upt_rec dec.simps digitChar_def
      char_eq_code [of "char_of _"])

lemma status_settle:
  "status (settle r url i) = (case r of Inl err \<Rightarrow> Error | Inr bl \<Rightarrow> Success)"
  by (simp add: settle_def split: sum.splits)

text \<open>
  C2. \<open>processBatch\<close> (with credentials entered) selects exactly the items whose status is
  idle or failed and processes them strictly one at a time, in the row order of the
  batch. Its whole request log, follow-up requests for audio files included, is the log
  of the schedule \<open>oneAtATime\<close> over the selected items: the log it started with, followed
  by one block of requests for each selected item, in row order, each block the synthesis
  request of the item alone or followed by the one request for its audio file; so the
  synthesis requests are those of the selected items, in row order. At the moment the
  loop reaches a selected item (the run is the loop over the items before it, then over
  it and the items after it), the request log is that of the complete calls for the
  items before it, the progress counter counts them, each of them is succeeded or
  failed, and every item that is not one of them is as it was before the run; and the
  item ends succeeded or failed as the call made for it at that moment returns or fails.
  After a run no item is idle, so the next run selects exactly the failed items, again in
  row order. In the run over five items in which items 2 and 4 fail, the statuses end as
  succeeded, failed, succeeded, failed, succeeded (\<open>stats\<close>: 5 in total, 3 succeeded,
  2 failed, none pending), and a second run, over whatever network, selects items 2 and 4
  and issues the requests for item 2 and then item 4, and no other synthesis request. In
  a run over two items whose audio arrives as remote files, the log is the request for
  item 1, the request for its file, the request for item 2, the request for its file.
\<close>

theorem processBatch_selection_order:
  fixes st :: app and w :: world
  defines "sel \<equiv> filter (\<lambda>i. status i = Idle \<or> status i = Error) (items st)"
    and "fin \<equiv> processBatch w st"
  shows
  "(app_apiKey st \<noteq> [] \<and> app_groupId st \<noteq> [] \<longrightarrow>
      sent (browser fin) = sent (snd (oneAtATime w (credentials st) sel (browser st)))
    \<and> (\<exists>chunks. sent (browser fin) = sent (browser st) @ concat chunks
          \<and> list_all2
               (\<lambda>i c. c = [apiRequest (text' (row i)) (voice_id (row i)) (credentials st) DEFAULT_MODEL]
                     \<or> (\<exists>url. c = [apiRequest (text' (row i)) (voice_id (row i)) (credentials st)
                                      DEFAULT_MODEL, Get url]))
               sel chunks)
    \<and> posts (sent (browser fin)) =
        posts (sent (browser st)) @
          map (\<lambda>i. apiRequest (text' (row i)) (voice_id (row i)) (credentials st) DEFAULT_MODEL) sel
    \<and> (\<forall>pre item post.
          sel = pre @ item # post \<longrightarrow>
            fin = (batchLoop w (credentials st) (item # post) (length pre)
                     (batchLoop w (credentials st) pre 0 (startBatch st)))\<lparr>isProcessing := False\<rparr>
          \<and> sent (browser (batchLoop w (credentials st) pre 0 (startBatch st))) =
              sent (snd (oneAtATime w (credentials st) pre (browser st)))
          \<and> progress (batchLoop w (credentials st) pre 0 (startBatch st)) =
              \<lparr>current = length pre, total = length sel\<rparr>
          \<and> (\<forall>i\<in>set (items (batchLoop w (credentials st) pre 0 (startBatch st))).
                id' i \<in> id' ` set pre \<longrightarrow> status i = Success \<or> status i = Error)
          \<and> (\<forall>k. k < length (items st) \<and> id' (items st ! k) \<notin> id' ` set pre \<longrightarrow>
                items (batchLoop w (credentials st) pre 0 (startBatch st)) ! k = items st ! k)
          \<and> (\<forall>k. distinct (map id' (items st)) \<and> k < length (items st) \<and> items st ! k = item \<longrightarrow>
                status (items fin ! k) =
                  (case fst (oneAtATime w (credentials st) sel (browser st)) ! length pre of
                     Inl err \<Rightarrow> Error
                   | Inr bl \<Rightarrow> Success)))
    \<and> pendingItems (items fin) = filter (\<lambda>i. status i = Error) (items fin))
   \<and> map status (items firstRun) = [Success, Error, Success, Error, Success]
   \<and> stats (items firstRun) =
       \<lparr>stats_total = 5, stats_success = 3, stats_error = 2, stats_pending = 0\<rparr>
   \<and> map id' (pendingItems (items firstRun)) = [''1-42'', ''3-42'']
   \<and> posts (sent (browser (processBatch w firstRun))) =
        posts (sent (browser firstRun)) @
          [apiRequest (Some ''two'') (Some ''v1'') demoConfig DEFAULT_MODEL,
           apiRequest (Some ''four'') (Some ''v1'') demoConfig DEFAULT_MODEL]
   \<and> sent (browser (processBatch remoteServer (demoApp twoItems))) =
        [apiRequest (Some ''one'') (Some ''v1'') demoConfig DEFAULT_MODEL,
         Get ''https://cdn.example/one.mp3'',
         apiRequest (Some ''two'') (Some ''v1'') demoConfig DEFAULT_MODEL,
         Get ''https://cdn.example/two.mp3'']"
proof -
  have sel: "sel = pendingItems (items st)" by (simp add: sel_def pendingItems_def)
  let ?cfg = "credentials st"
  have log: "sent (browser (processBatch w' st')) =
      sent (snd (oneAtATime w' (credentials st') (pendingItems (items st')) (browser st')))"
    if "app_apiKey st' \<noteq> []" "app_groupId st' \<noteq> []" for w' st'
    using that batchLoop_log [of w' "credentials st'" "pendingItems (items st')" 0 "startBatch st'"]
    by (simp add: processBatch_browser)
  have scenario: "map status (items firstRun) = [Success, Error, Success, Error, Success]
     \<and> stats (items firstRun) =
         \<lparr>stats_total = 5, stats_success = 3, stats_error = 2, stats_pending = 0\<rparr>
     \<and> map id' (pendingItems (items firstRun)) = [''1-42'', ''3-42'']
     \<and> posts (sent (browser (processBatch w firstRun))) =
          posts (sent (browser firstRun)) @
            [apiRequest (Some ''two'') (Some ''v1'') demoConfig DEFAULT_MODEL,
             apiRequest (Some ''four'') (Some ''v1'') demoConfig DEFAULT_MODEL]"
    using processBatch_posts [of firstRun w]
    by (simp add: firstRun_creds firstRun_items pendingItems_def lineRow_def stats_def)
  have remote: "sent (browser (processBatch remoteServer (demoApp twoItems))) =
        [apiRequest (Some ''one'') (Some ''v1'') demoConfig DEFAULT_MODEL,
         Get ''https://cdn.example/one.mp3'',
         apiRequest (Some ''two'') (Some ''v1'') demoConfig DEFAULT_MODEL,
         Get ''https://cdn.example/two.mp3'']"
    using log [of "demoApp twoItems" remoteServer]
    by (simp add: demoApp_def credentials_def demoConfig_def twoItems_eq pendingItems_def
        lineRow_def generateSpeech_remoteServer freshBrowser_def)
  have general: "sent (browser fin) = sent (snd (oneAtATime w ?cfg sel (browser st)))
    \<and> (\<exists>chunks. sent (browser fin) = sent (browser st) @ concat chunks
          \<and> list_all2
               (\<lambda>i c. c = [apiRequest (text' (row i)) (voice_id (row i)) ?cfg DEFAULT_MODEL]
                     \<or> (\<exists>url. c = [apiRequest (text' (row i)) (voice_id (row i)) ?cfg
                                      DEFAULT_MODEL, Get url]))
               sel chunks)
    \<and> posts (sent (browser fin)) =
        posts (sent (browser st)) @
          map (\<lambda>i. apiRequest (text' (row i)) (voice_id (row i)) ?cfg DEFAULT_MODEL) sel
    \<and> (\<forall>pre item post.
          sel = pre @ item # post \<longrightarrow>
            fin = (batchLoop w ?cfg (item # post) (length pre)
                     (batchLoop w ?cfg pre 0 (startBatch st)))\<lparr>isProcessing := False\<rparr>
          \<and> sent (browser (batchLoop w ?cfg pre 0 (startBatch st))) =
              sent (snd (oneAtATime w ?cfg pre (browser st)))
          \<and> progress (batchLoop w ?cfg pre 0 (startBatch st)) =
              \<lparr>current = length pre, total = length sel\<rparr>
          \<and> (\<forall>i\<in>set (items (batchLoop w ?cfg pre 0 (startBatch st))).
                id' i \<in> id' ` set pre \<longrightarrow> status i = Success \<or> status i = Error)
          \<and> (\<forall>k. k < length (items st) \<and> id' (items st ! k) \<notin> id' ` set pre \<longrightarrow>
                items (batchLoop w ?cfg pre 0 (startBatch st)) ! k = items st ! k)
          \<and> (\<forall>k. distinct (map id' (items st)) \<and> k < length (items st) \<and> items st ! k = item \<longrightarrow>
                status (items fin ! k) =
                  (case fst (oneAtATime w ?cfg sel (browser st)) ! length pre of
                     Inl err \<Rightarrow> Error
                   | Inr bl \<Rightarrow> Success)))
    \<and> pendingItems (items fin) = filter (\<lambda>i. status i = Error) (items fin)"
    if c: "app_apiKey st \<noteq> []" "app_groupId st \<noteq> []"
  proof (intro conjI allI impI)
    show l: "sent (browser fin) = sent (snd (oneAtATime w ?cfg sel (browser st)))"
      unfolding fin_def sel by (rule log [OF c])
    show "\<exists>chunks. sent (browser fin) = sent (browser st) @ concat chunks
          \<and> list_all2
               (\<lambda>i c. c = [apiRequest (text' (row i)) (voice_id (row i)) ?cfg DEFAULT_MODEL]
                     \<or> (\<exists>url. c = [apiRequest (text' (row i)) (voice_id (row i)) ?cfg
                                      DEFAULT_MODEL, Get url]))
               sel chunks"
      unfolding l by (rule oneAtATime_chunks)
    show "posts (sent (browser fin)) =
        posts (sent (browser st)) @
          map (\<lambda>i. apiRequest (text' (row i)) (voice_id (row i)) ?cfg DEFAULT_MODEL) sel"
      unfolding fin_def sel using c by (rule processBatch_posts)
    show "pendingItems (items fin) = filter (\<lambda>i. status i = Error) (items fin)"
      unfolding pendingItems_def fin_def
      using c processBatch_no_idle [of st w] by (intro filter_cong) auto
  next
    fix pre item post
    assume split: "sel = pre @ item # post"
    let ?mid = "batchLoop w ?cfg pre 0 (startBatch st)"
    show "fin = (batchLoop w ?cfg (item # post) (length pre) ?mid)\<lparr>isProcessing := False\<rparr>"
      unfolding fin_def using c split [unfolded sel]
      by (simp add: processBatch_def batchLoop_append del: batchLoop.simps)
    show "sent (browser ?mid) = sent (snd (oneAtATime w ?cfg pre (browser st)))"
      using batchLoop_log [of w ?cfg pre 0 "startBatch st"] by simp
    show "progress ?mid = \<lparr>current = length pre, total = length sel\<rparr>"
      by (simp add: batchLoop_progress startBatch_def sel)
    show "\<forall>i\<in>set (items ?mid). id' i \<in> id' ` set pre \<longrightarrow> status i = Success \<or> status i = Error"
      using batchLoop_settled [of "startBatch st" "{}" w ?cfg pre 0] by simp
    show "items ?mid ! k = items st ! k"
      if "k < length (items st) \<and> id' (items st ! k) \<notin> id' ` set pre" for k
      using that batchLoop_frame [of k "startBatch st" pre w ?cfg 0] by simp
    show "status (items fin ! k) =
            (case fst (oneAtATime w ?cfg sel (browser st)) ! length pre of
               Inl err \<Rightarrow> Error
             | Inr bl \<Rightarrow> Success)"
      if h: "distinct (map id' (items st)) \<and> k < length (items st) \<and> items st ! k = item" for k
    proof -
      have ps: "pendingItems (items st) = pre @ item # post" using split sel by simp
      have "items (batchLoop w ?cfg (pre @ item # post) 0 (startBatch st)) ! k
          = settle (outcome w ?cfg item ?mid) (''blob:'' @ dec (minted (browser ?mid))) item"
        using h pending_split_ids [OF _ ps] by (intro batchLoop_item) simp_all
      then have "items fin ! k
          = settle (outcome w ?cfg item ?mid) (''blob:'' @ dec (minted (browser ?mid))) item"
        unfolding fin_def using c ps by (simp add: processBatch_items)
      moreover have "outcome w ?cfg item ?mid
          = fst (oneAtATime w ?cfg sel (browser st)) ! length pre"
        unfolding split using outcome_serial [of w ?cfg item pre 0 "startBatch st" post] by simp
      ultimately show ?thesis by (simp add: status_settle)
    qed
  qed
  show ?thesis
    using general scenario remote by blast
qed


section \<open>The run theorems on the five-item scenario\<close>

lemma outcome_failingFor:
  "text' (row item) = Some tx \<Longrightarrow>
   outcome (failingFor bad) cfg item st =
     (if tx \<in> set bad then Inl (ServiceError ''rate limited'')
      else Inr (Blob [0x68, 0x65, 0x6c, 0x6c, 0x6f] ''audio/mp3''))"
  by (simp add: outcome_def generateSpeech_failingFor)

lemma demoApp_simps [simp]:
  "items (demoApp xs) = xs" "app_apiKey (demoApp xs) = ''key''"
  "app_groupId (demoApp xs) = ''group''" "browser (demoApp xs) = freshBrowser"
  "credentials (demoApp xs) = demoConfig"
  by (simp_all add: demoApp_def credentials_def demoConfig_def)

text \<open>
  C9 on the state after the first run, run again over a service that now always succeeds
  (item 3, succeeded, stays as it is), and on a batch of one succeeded item.
\<close>

theorem processBatch_frame_succeeded_witness:
  "distinct (map id' (items firstRun)) \<and> status (items firstRun ! 2) = Success
   \<and> items (processBatch (failingFor []) firstRun) ! 2 = items firstRun ! 2
   \<and> items (processBatch (failingFor [''one''])
         (demoApp [\<lparr>id' = ''0-42'', row = lineRow ''001'' ''one'', status = Success,
                     audioUrl = Some ''blob:0'', errorMessage = None\<rparr>]))
      = [\<lparr>id' = ''0-42'', row = lineRow ''001'' ''one'', status = Success,
           audioUrl = Some ''blob:0'', errorMessage = None\<rparr>]
   \<and> browser (processBatch (failingFor [''one''])
         (demoApp [\<lparr>id' = ''0-42'', row = lineRow ''001'' ''one'', status = Success,
                     audioUrl = Some ''blob:0'', errorMessage = None\<rparr>]))
      = freshBrowser"
proof -
  note t1 = processBatch_frame_succeeded [of firstRun "failingFor []"]
  note t2 = processBatch_frame_succeeded [of
      "demoApp [\<lparr>id' = ''0-42'', row = lineRow ''001'' ''one'', status = Success,
                 audioUrl = Some ''blob:0'', errorMessage = None\<rparr>]" "failingFor [''one'']"]
  have d: "distinct (map id' (items firstRun))" by (simp add: firstRun_items)
  have s: "status (items firstRun ! 2) = Success" "2 < length (items firstRun)"
    by (simp_all add: firstRun_items)
  from t1 d s have 1: "items (processBatch (failingFor []) firstRun) ! 2 = items firstRun ! 2"
    by blast
  from t2 have 2: "items (processBatch (failingFor [''one''])
         (demoApp [\<lparr>id' = ''0-42'', row = lineRow ''001'' ''one'', status = Success,
                     audioUrl = Some ''blob:0'', errorMessage = None\<rparr>]))
      = [\<lparr>id' = ''0-42'', row = lineRow ''001'' ''one'', status = Success,
           audioUrl = Some ''blob:0'', errorMessage = None\<rparr>]
   \<and> browser (processBatch (failingFor [''one''])
         (demoApp [\<lparr>id' = ''0-42'', row = lineRow ''001'' ''one'', status = Success,
                     audioUrl = Some ''blob:0'', errorMessage = None\<rparr>]))
      = freshBrowser"
    by simp
  from d s 1 2 show ?thesis by blast
qed

text \<open>
  C7 on item 2 of the scenario: failed in the first run with \<open>rate limited\<close>, selected again
  by a second run in which the service succeeds.
\<close>

theorem processBatch_retry_converges_witness:
  "\<exists>url. items (processBatch (failingFor []) firstRun) ! 1
           = \<lparr>id' = ''1-42'', row = lineRow ''002'' ''two'', status = Success,
              audioUrl = Some url, errorMessage = None\<rparr>
         \<and> (url, Blob [0x68, 0x65, 0x6c, 0x6c, 0x6f] ''audio/mp3'')
             \<in> set (objectURLs (browser (processBatch (failingFor []) firstRun)))"
proof -
  let ?item = "\<lparr>id' = ''1-42'', row = lineRow ''002'' ''two'', status = Error,
       audioUrl = None, errorMessage = Some ''Minimax Error: rate limited''\<rparr>"
  let ?post = "[\<lparr>id' = ''3-42'', row = lineRow ''004'' ''four'', status = Error,
       audioUrl = None, errorMessage = Some ''Minimax Error: rate limited''\<rparr>]"
  have "\<exists>url. items (processBatch (failingFor []) firstRun) ! 1
           = ?item\<lparr>status := Success, audioUrl := Some url, errorMessage := None\<rparr>
         \<and> (url, Blob [0x68, 0x65, 0x6c, 0x6c, 0x6f] ''audio/mp3'')
             \<in> set (objectURLs (browser (processBatch (failingFor []) firstRun)))"
  proof (rule processBatch_retry_converges [where pre = "[]" and post = ?post
        and msg = "''Minimax Error: rate limited''"])
    show "app_apiKey firstRun \<noteq> []" "app_groupId firstRun \<noteq> []"
      by (simp_all add: firstRun_creds)
    show "distinct (map id' (items firstRun))" by (simp add: firstRun_items)
    show "1 < length (items firstRun)" "items firstRun ! 1 = ?item"
      by (simp_all add: firstRun_items)
    show "status ?item = Error" "errorMessage ?item = Some ''Minimax Error: rate limited''"
      by simp_all
    show "pendingItems (items firstRun) = [] @ ?item # ?post"
      by (simp add: firstRun_items pendingItems_def)
    show "outcome (failingFor []) (credentials firstRun) ?item
            (batchLoop (failingFor []) (credentials firstRun) [] 0 (startBatch firstRun))
          = Inr (Blob [0x68, 0x65, 0x6c, 0x6c, 0x6f] ''audio/mp3'')"
      by (simp add: outcome_failingFor [where tx = "''two''"] lineRow_def)
  qed
  then show ?thesis by simp
qed


text \<open>
  C2 on the two items with remote audio files: the state in which the loop reaches item 2
  (the log holds the two requests of item 1, the counter is at 1 of 2, item 2 is as
  uploaded), the status item 2 ends with, and the log of the run; and on the five items:
  over a service that always succeeds (five requests, in row order), and the selection
  after the first run of the scenario.
\<close>

theorem processBatch_selection_order_witness:
  "sent (browser (batchLoop remoteServer demoConfig [twoItems ! 0] 0 (startBatch (demoApp twoItems)))) =
     [apiRequest (Some ''one'') (Some ''v1'') demoConfig DEFAULT_MODEL,
      Get ''https://cdn.example/one.mp3'']
   \<and> progress (batchLoop remoteServer demoConfig [twoItems ! 0] 0 (startBatch (demoApp twoItems))) =
       \<lparr>current = 1, total = 2\<rparr>
   \<and> items (batchLoop remoteServer demoConfig [twoItems ! 0] 0 (startBatch (demoApp twoItems))) ! 1 =
       twoItems ! 1
   \<and> status (items (processBatch remoteServer (demoApp twoItems)) ! 1) = Success
   \<and> sent (browser (processBatch remoteServer (demoApp twoItems))) =
       [apiRequest (Some ''one'') (Some ''v1'') demoConfig DEFAULT_MODEL,
        Get ''https://cdn.example/one.mp3'',
        apiRequest (Some ''two'') (Some ''v1'') demoConfig DEFAULT_MODEL,
        Get ''https://cdn.example/two.mp3'']
   \<and> posts (sent (browser (processBatch (failingFor []) (demoApp fiveItems)))) =
       map (\<lambda>i. apiRequest (text' (row i)) (Some ''v1'') demoConfig DEFAULT_MODEL) fiveItems
   \<and> pendingItems (items firstRun) = filter (\<lambda>i. status i = Error) (items firstRun)"
proof -
  have c: "app_apiKey (demoApp twoItems) \<noteq> [] \<and> app_groupId (demoApp twoItems) \<noteq> []"
    by (simp add: demoApp_def)
  have sp: "filter (\<lambda>i. status i = Idle \<or> status i = Error) (items (demoApp twoItems))
      = [twoItems ! 0] @ twoItems ! 1 # []"
    by (simp add: demoApp_def twoItems_eq)
  note run = processBatch_selection_order [of "demoApp twoItems" remoteServer, THEN conjunct1,
      THEN mp, OF c]
  note at = run [THEN conjunct2, THEN conjunct2, THEN conjunct2, THEN conjunct1,
      THEN spec [where x = "[twoItems ! 0]"], THEN spec [where x = "twoItems ! 1"],
      THEN spec [where x = "[]"], THEN mp, OF sp]
  have cfg: "credentials (demoApp twoItems) = demoConfig"
    by (simp add: demoApp_def credentials_def demoConfig_def)
  have st: "items (demoApp twoItems) = twoItems" "browser (demoApp twoItems) = freshBrowser"
    by (simp_all add: demoApp_def)
  have sent1: "sent (browser (batchLoop remoteServer demoConfig [twoItems ! 0] 0 (startBatch (demoApp twoItems)))) =
     [apiRequest (Some ''one'') (Some ''v1'') demoConfig DEFAULT_MODEL,
      Get ''https://cdn.example/one.mp3'']"
    using at [THEN conjunct2, THEN conjunct1] unfolding cfg st
    by (simp add: twoItems_eq lineRow_def generateSpeech_remoteServer freshBrowser_def
        del: batchLoop.simps)
  have progress1: "progress (batchLoop remoteServer demoConfig [twoItems ! 0] 0 (startBatch (demoApp twoItems))) =
       \<lparr>current = 1, total = 2\<rparr>"
    using at [THEN conjunct2, THEN conjunct2, THEN conjunct1] unfolding cfg st
    by (simp add: twoItems_eq del: batchLoop.simps)
  have untouched: "items (batchLoop remoteServer demoConfig [twoItems ! 0] 0 (startBatch (demoApp twoItems))) ! 1 =
       twoItems ! 1"
    using at [THEN conjunct2, THEN conjunct2, THEN conjunct2, THEN conjunct2, THEN conjunct1,
        THEN spec [where x = 1]] unfolding cfg st
    by (simp add: twoItems_eq del: batchLoop.simps)
  have status1: "status (items (processBatch remoteServer (demoApp twoItems)) ! 1) = Success"
    using at [THEN conjunct2, THEN conjunct2, THEN conjunct2, THEN conjunct2, THEN conjunct2,
        THEN spec [where x = 1]] unfolding cfg st
    by (simp add: twoItems_eq lineRow_def generateSpeech_remoteServer del: batchLoop.simps)
  note two = sent1 progress1 untouched status1
  have log: "sent (browser (processBatch remoteServer (demoApp twoItems))) =
       [apiRequest (Some ''one'') (Some ''v1'') demoConfig DEFAULT_MODEL,
        Get ''https://cdn.example/one.mp3'',
        apiRequest (Some ''two'') (Some ''v1'') demoConfig DEFAULT_MODEL,
        Get ''https://cdn.example/two.mp3'']"
    using run [THEN conjunct1] unfolding cfg st
    by (simp add: twoItems_eq lineRow_def generateSpeech_remoteServer freshBrowser_def)
  have c5: "app_apiKey (demoApp fiveItems) \<noteq> [] \<and> app_groupId (demoApp fiveItems) \<noteq> []"
    by (simp add: demoApp_def)
  have cfg5: "credentials (demoApp fiveItems) = demoConfig"
    by (simp add: demoApp_def credentials_def demoConfig_def)
  have st5: "items (demoApp fiveItems) = fiveItems" "browser (demoApp fiveItems) = freshBrowser"
    by (simp_all add: demoApp_def)
  have five: "posts (sent (browser (processBatch (failingFor []) (demoApp fiveItems)))) =
       map (\<lambda>i. apiRequest (text' (row i)) (Some ''v1'') demoConfig DEFAULT_MODEL) fiveItems"
    using processBatch_selection_order [of "demoApp fiveItems" "failingFor []", THEN conjunct1,
        THEN mp, OF c5, THEN conjunct2, THEN conjunct2, THEN conjunct1]
    unfolding cfg5 st5
    by (simp add: fiveItems_eq freshBrowser_def posts_def lineRow_def)
  have next_selection: "pendingItems (items firstRun) = filter (\<lambda>i. status i = Error) (items firstRun)"
    using processBatch_selection_order [of "demoApp fiveItems" "failingFor [''two'', ''four'']",
        THEN conjunct1, THEN mp, OF c5, THEN conjunct2, THEN conjunct2, THEN conjunct2,
        THEN conjunct2]
    by (simp add: firstRun_def)
  from two log five next_selection show ?thesis by blast
qed

section \<open>Ids, audio URLs and the object URL store\<close>

lemma digitChar_code: "d < 10 \<Longrightarrow> (of_char (digitChar d) :: nat) = 48 + d"
  by (simp add: digitChar_def)

lemma dec_chars: "c \<in> set (dec n) \<Longrightarrow> 48 \<le> (of_char c :: nat) \<and> (of_char c :: nat) \<le> 57"
proof (induction n arbitrary: c rule: dec.induct)
  case (1 n)
  show ?case
  proof (cases "n < 10")
    case True
    with 1(2) show ?thesis by (simp add: dec.simps [of n] digitChar_code)
  next
    case False
    with 1(2) have "c \<in> set (dec (n div 10)) \<or> c = digitChar (n mod 10)"
      by (auto simp: dec.simps [of n])
    then show ?thesis
    proof
      assume "c \<in> set (dec (n div 10))"
      with 1(1) [OF False] show ?thesis by simp
    next
      assume "c = digitChar (n mod 10)"
      then show ?thesis by (simp add: digitChar_code)
    qed
  qed
qed

lemma undec_dec: "undec (dec n) = n"
proof (induction n rule: dec.induct)
  case (1 n)
  show ?case
  proof (cases "n < 10")
    case True
    then show ?thesis by (simp add: dec.simps [of n] undec_def digitChar_code)
  next
    case False
    have "undec (dec n) = 10 * undec (dec (n div 10)) + (of_char (digitChar (n mod 10)) - 48)"
      using False by (simp add: dec.simps [of n] undec_def)
    then show ?thesis using 1 [OF False] by (simp add: digitChar_code)
  qed
qed

lemma dec_inj: "dec n = dec m \<Longrightarrow> n = m"
  by (metis undec_dec)

lemma dec_no_dash: "c \<in> set (dec n) \<Longrightarrow> c \<noteq> CHR ''-''"
  using dec_chars [of c n] by (auto simp: char_eq_code [of c])

lemma id_prefix: "takeWhile (\<lambda>c. c \<noteq> CHR ''-'') (dec i @ ''-'' @ s) = dec i"
  using dec_no_dash [of _ i] by (simp add: takeWhile_append2)

lemma map_fst_enumerate_fun:
  "map (\<lambda>x. f (fst x)) (enumerate n xs) = map f [n..<n + length xs]"
proof -
  have "map (\<lambda>x. f (fst x)) (enumerate n xs) = map (f \<circ> fst) (enumerate n xs)"
    by (simp add: o_def)
  also have "\<dots> = map f (map fst (enumerate n xs))" by (simp only: map_map)
  also have "\<dots> = map f [n..<n + length xs]" by (simp only: map_fst_enumerate)
  finally show ?thesis .
qed

lemma newItems_ids:
  "map id' (newItems clock rows) = map (\<lambda>i. dec i @ ''-'' @ dec (clock i)) [0..<length rows]"
  using map_fst_enumerate_fun [of "\<lambda>i. dec i @ ''-'' @ dec (clock i)" 0 rows]
  by (simp add: newItems_def case_prod_unfold o_def)

lemma newItems_distinct: "distinct (map id' (newItems clock rows))"
proof -
  have "inj_on (\<lambda>i. dec i @ ''-'' @ dec (clock i)) (set [0..<length rows])"
  proof (rule inj_onI)
    fix i j
    assume "dec i @ ''-'' @ dec (clock i) = dec j @ ''-'' @ dec (clock j)"
    then have "takeWhile (\<lambda>c. c \<noteq> CHR ''-'') (dec i @ ''-'' @ dec (clock i))
        = takeWhile (\<lambda>c. c \<noteq> CHR ''-'') (dec j @ ''-'' @ dec (clock j))"
      by simp
    then have "dec i = dec j" by (simp only: id_prefix)
    then show "i = j" by (rule dec_inj)
  qed
  then show ?thesis by (simp add: newItems_ids distinct_map)
qed

lemma newItems_fresh:
  "i \<in> set (newItems clock rows) \<Longrightarrow> status i = Idle \<and> audioUrl i = None \<and> errorMessage i = None"
  by (auto simp: newItems_def)

lemma wellFormedBatch_upload:
  "wellFormedBatch st \<Longrightarrow> wellFormedBatch (handleFileUpload clock file st)"
  by (auto simp: wellFormedBatch_def handleFileUpload_def Let_def newItems_distinct list_all_iff
      dest: newItems_fresh split: option.splits sum.splits)

lemma wellFormedBatch_clear: "wellFormedBatch (onClickClear st)"
  by (simp add: wellFormedBatch_def onClickClear_def)


lemma wellFormedBatch_cong:
  "items s' = items s \<Longrightarrow> browser s' = browser s \<Longrightarrow> wellFormedBatch s' = wellFormedBatch s"
  unfolding wellFormedBatch_def by (simp cong: option.case_cong)

lemma processItem_store_cases:
  "objectURLs (browser (processItem w cfg item st)) =
     objectURLs (browser st) @
       (case outcome w cfg item st of
          Inr bl \<Rightarrow> [(''blob:'' @ dec (minted (browser st)), bl)]
        | Inl err \<Rightarrow> [])"
proof (cases "generateSpeech w (text' (row item)) (voice_id (row item)) cfg DEFAULT_MODEL (browser st)")
  case (Pair r b1)
  have "objectURLs b1 = objectURLs (browser st)" "minted b1 = minted (browser st)"
    using generateSpeech_store [of w "text' (row item)" "voice_id (row item)" cfg DEFAULT_MODEL "browser st"] Pair
    by simp_all
  then show ?thesis using Pair
    by (cases r) (simp_all add: processItem_browser createObjectURL_def Let_def outcome_def)
qed

lemma count_update:
  assumes "distinct (map id' xs)" "a \<in> id' ` set xs" "\<forall>i\<in>set xs. id' i = a \<longrightarrow> \<not> Q i"
    and "\<forall>i. Q (f i) = c"
  shows "length (filter Q (map (\<lambda>i. if id' i = a then f i else i) xs))
         = length (filter Q xs) + (if c then 1 else 0)"
  using assms(1-3)
proof (induction xs)
  case Nil
  then show ?case by simp
next
  case (Cons x xs)
  show ?case
  proof (cases "id' x = a")
    case True
    then have "a \<notin> id' ` set xs" using Cons.prems(1) by auto
    then have "map (\<lambda>i. if id' i = a then f i else i) xs = xs"
      by (intro map_idI) auto
    moreover have "\<not> Q x" using True Cons.prems(3) by simp
    ultimately show ?thesis using True assms(4) by simp
  next
    case False
    then have "a \<in> id' ` set xs" using Cons.prems(2) by auto
    then have "length (filter Q (map (\<lambda>i. if id' i = a then f i else i) xs))
         = length (filter Q xs) + (if c then 1 else 0)"
      using Cons.prems by (intro Cons.IH) auto
    then show ?thesis using False by simp
  qed
qed

lemma settle_id [simp]: "id' (settle res url i) = id' i"
  by (simp add: settle_def split: sum.splits)

lemma processItem_wellFormed:
  assumes wf: "wellFormedBatch s" and mem: "id' item \<in> id' ` set (items s)"
    and fresh: "\<forall>i\<in>set (items s). id' i = id' item \<longrightarrow> status i \<noteq> Success"
  shows "wellFormedBatch (processItem w cfg item s)"
    and "length (objectURLs (browser (processItem w cfg item s))) + succeededCount (items s)
         = length (objectURLs (browser s)) + succeededCount (items (processItem w cfg item s))"
proof -
  let ?res = "outcome w cfg item s"
  let ?url = "''blob:'' @ dec (minted (browser s))"
  let ?s1 = "processItem w cfg item s"
  have it: "items ?s1 = map (\<lambda>i. if id' i = id' item then settle ?res ?url i else i) (items s)"
    by (rule processItem_items)
  have st: "objectURLs (browser ?s1) = objectURLs (browser s) @
       (case ?res of Inr bl \<Rightarrow> [(?url, bl)] | Inl err \<Rightarrow> [])"
    by (rule processItem_store_cases)
  have d: "distinct (map id' (items ?s1))"
    using wf by (simp add: processItem_ids wellFormedBatch_def)
  have none: "\<forall>i\<in>set (items s). id' i = id' item \<longrightarrow> audioUrl i = None"
    using wf fresh by (auto simp: wellFormedBatch_def list_all_iff)
  have a: "list_all (\<lambda>i. audioUrl i = None \<or> status i = Success) (items ?s1)"
    using wf none unfolding it
    by (auto simp: wellFormedBatch_def list_all_iff settle_def split: sum.splits)
  have b: "list_all (\<lambda>i. case audioUrl i of None \<Rightarrow> True
                        | Some u \<Rightarrow> u \<in> fst ` set (objectURLs (browser ?s1))) (items ?s1)"
    using wf none unfolding it st
    by (auto simp: wellFormedBatch_def list_all_iff settle_def split: sum.splits option.splits)
  from d a b show "wellFormedBatch ?s1" by (simp add: wellFormedBatch_def)
  have "length (filter (\<lambda>i. status i = Success)
            (map (\<lambda>i. if id' i = id' item then settle ?res ?url i else i) (items s)))
        = length (filter (\<lambda>i. status i = Success) (items s))
          + (if (case ?res of Inr bl \<Rightarrow> True | Inl err \<Rightarrow> False) then 1 else 0)"
    using wf mem fresh
    by (intro count_update) (auto simp: wellFormedBatch_def settle_def split: sum.splits)
  then show "length (objectURLs (browser ?s1)) + succeededCount (items s)
         = length (objectURLs (browser s)) + succeededCount (items ?s1)"
    unfolding it st succeededCount_def by (simp split: sum.splits)
qed

lemma processItem_untouched:
  assumes "i \<in> set (items (processItem w cfg item s))" "id' i \<noteq> id' item"
  shows "i \<in> set (items s)"
  using assms by (auto simp: processItem_items split: if_splits)

lemma batchLoop_wellFormed:
  assumes "wellFormedBatch s" "distinct (map id' pend)"
    and "\<forall>p\<in>set pend. id' p \<in> id' ` set (items s)"
    and "\<forall>p\<in>set pend. \<forall>i\<in>set (items s). id' i = id' p \<longrightarrow> status i \<noteq> Success"
  shows "wellFormedBatch (batchLoop w cfg pend n s)
    \<and> length (objectURLs (browser (batchLoop w cfg pend n s))) + succeededCount (items s)
       = length (objectURLs (browser s)) + succeededCount (items (batchLoop w cfg pend n s))"
  using assms
proof (induction pend arbitrary: n s)
  case Nil
  then show ?case by simp
next
  case (Cons item rest)
  let ?s1 = "processItem w cfg item s"
  let ?s2 = "?s1\<lparr>progress := (progress ?s1)\<lparr>current := n + 1\<rparr>\<rparr>"
  have mem: "id' item \<in> id' ` set (items s)" using Cons.prems(3) by simp
  have fresh: "\<forall>i\<in>set (items s). id' i = id' item \<longrightarrow> status i \<noteq> Success"
    using Cons.prems(4) by simp
  note step = processItem_wellFormed [OF Cons.prems(1) mem fresh, of w cfg]
  have wf2: "wellFormedBatch ?s2"
    using step(1) wellFormedBatch_cong [of ?s2 ?s1] by simp
  have d: "distinct (map id' rest)" using Cons.prems(2) by simp
  have ids: "id' ` set (items ?s2) = id' ` set (items s)"
  proof -
    have "set (map id' (items ?s2)) = set (map id' (items s))"
      using processItem_ids [of w cfg item s] by simp
    then show ?thesis by (simp only: set_map)
  qed
  have m2: "\<forall>p\<in>set rest. id' p \<in> id' ` set (items ?s2)"
    using Cons.prems(3) ids by simp
  have f2: "\<forall>p\<in>set rest. \<forall>i\<in>set (items ?s2). id' i = id' p \<longrightarrow> status i \<noteq> Success"
  proof (intro ballI impI)
    fix p i
    assume p: "p \<in> set rest" and i: "i \<in> set (items ?s2)" and e: "id' i = id' p"
    have "id' item \<notin> id' ` set rest" using Cons.prems(2) by simp
    moreover have "id' p \<in> id' ` set rest" using p by (rule imageI)
    ultimately have "id' p \<noteq> id' item" by metis
    with e have "id' i \<noteq> id' item" by simp
    with i have "i \<in> set (items s)" using processItem_untouched [of i w cfg item s] by simp
    with Cons.prems(4) p e show "status i \<noteq> Success" by simp
  qed
  from Cons.IH [OF wf2 d m2 f2, of "n + 1"] step(2)
  show ?case by (simp add: Let_def)
qed


lemma distinct_ids_eq:
  assumes "distinct (map id' xs)" "i \<in> set xs" "p \<in> set xs" "id' i = id' p"
  shows "i = p"
  using assms by (meson distinct_map inj_on_def)

lemma processBatch_wellFormed:
  assumes wf: "wellFormedBatch st"
  shows "wellFormedBatch (processBatch w st)
    \<and> length (objectURLs (browser (processBatch w st))) + succeededCount (items st)
       = length (objectURLs (browser st)) + succeededCount (items (processBatch w st))"
proof (cases "app_apiKey st = [] \<or> app_groupId st = []")
  case True
  then show ?thesis
    using wf wellFormedBatch_cong [of "processBatch w st" st]
    by (simp add: processBatch_items processBatch_browser)
next
  case False
  let ?pend = "pendingItems (items st)"
  let ?fin = "batchLoop w (credentials st) ?pend 0 (startBatch st)"
  have d: "distinct (map id' (items st))" using wf by (simp add: wellFormedBatch_def)
  have wf0: "wellFormedBatch (startBatch st)"
    using wf wellFormedBatch_cong [of "startBatch st" st] by simp
  have dp: "distinct (map id' ?pend)" using d by (rule distinct_ids_pending)
  have m: "\<forall>p\<in>set ?pend. id' p \<in> id' ` set (items (startBatch st))"
    using pending_subset [of "items st"] by auto
  have f: "\<forall>p\<in>set ?pend. \<forall>i\<in>set (items (startBatch st)). id' i = id' p \<longrightarrow> status i \<noteq> Success"
  proof (intro ballI impI)
    fix p i
    assume p: "p \<in> set ?pend" and i: "i \<in> set (items (startBatch st))" and e: "id' i = id' p"
    have "p \<in> set (items st)" using p pending_subset by auto
    then have "i = p" using distinct_ids_eq [OF d _ _ e] i by simp
    then show "status i \<noteq> Success" using p by (auto simp: pendingItems_def)
  qed
  note loop = batchLoop_wellFormed [OF wf0 dp m f, of w "credentials st" 0]
  have "wellFormedBatch (processBatch w st) = wellFormedBatch ?fin"
    using False by (intro wellFormedBatch_cong) (simp_all add: processBatch_def)
  then show ?thesis
    using loop False by (simp add: processBatch_items processBatch_browser)
qed

lemma processBatch_store_prefix:
  "take (length (objectURLs (browser st))) (objectURLs (browser (processBatch w st)))
     = objectURLs (browser st)"
proof (cases "app_apiKey st = [] \<or> app_groupId st = []")
  case True
  then show ?thesis by (simp add: processBatch_browser)
next
  case False
  obtain new where "objectURLs (browser (batchLoop w (credentials st) (pendingItems (items st)) 0
      (startBatch st))) = objectURLs (browser (startBatch st)) @ new"
    using batchLoop_store by blast
  then show ?thesis using False by (simp add: processBatch_browser)
qed

lemma processBatch_succeeded_nth:
  assumes "distinct (map id' (items st))" "k < length (items st)"
    "status (items st ! k) = Success"
  shows "items (processBatch w st) ! k = items st ! k"
proof -
  have "id' (items (startBatch st) ! k) \<notin> id' ` set (pendingItems (items st))"
    using succeeded_not_pending [OF assms] by simp
  then have "items (batchLoop w (credentials st) (pendingItems (items st)) 0 (startBatch st)) ! k
      = items (startBatch st) ! k"
    using assms(2) by (intro batchLoop_frame) simp_all
  then show ?thesis by (simp add: processBatch_items)
qed

lemma firstRun_store:
  "objectURLs (browser firstRun) =
     [(''blob:0'', Blob [0x68, 0x65, 0x6c, 0x6c, 0x6f] ''audio/mp3''),
      (''blob:1'', Blob [0x68, 0x65, 0x6c, 0x6c, 0x6f] ''audio/mp3''),
      (''blob:2'', Blob [0x68, 0x65, 0x6c, 0x6c, 0x6f] ''audio/mp3'')]"
  by (simp add: firstRun_def processBatch_def demoApp_def fiveItems_eq pendingItems_def
      startBatch_def Let_def processItem_failingFor [where tx = "''one''"]
      processItem_failingFor [where tx = "''two''"] processItem_failingFor [where tx = "''three''"]
      processItem_failingFor [where tx = "''four''"] processItem_failingFor [where tx = "''five''"]
      lineRow_def markLoading_def markSuccess_def markError_def
      freshBrowser_def dec_digit digitChar_def char_eq_code [of "char_of _"])

text \<open>
  C8, as stated, fails: nothing releases a handle. After the first run of the scenario
  item 1 holds the object URL \<open>blob:0\<close>; the Clear button then empties the item list, and
  the three object URLs created for the batch, with their blobs, are still in the store.
\<close>

theorem handles_released_counterexample:
  "audioUrl (items firstRun ! 0) = Some ''blob:0''
   \<and> items (onClickClear firstRun) = []
   \<and> objectURLs (browser (onClickClear firstRun)) =
       [(''blob:0'', Blob [0x68, 0x65, 0x6c, 0x6c, 0x6f] ''audio/mp3''),
        (''blob:1'', Blob [0x68, 0x65, 0x6c, 0x6c, 0x6f] ''audio/mp3''),
        (''blob:2'', Blob [0x68, 0x65, 0x6c, 0x6c, 0x6f] ''audio/mp3'')]"
  by (simp add: firstRun_items firstRun_store onClickClear_def)

text \<open>
  C8, amended. In every state reached by uploads, runs and clears each item holds at most
  one audio URL, held only by succeeded items and registered in the object URL store
  (\<open>wellFormedBatch\<close>, which uploads, runs and clears preserve and every cleared state
  satisfies). A run never replaces an audio URL an item already holds, and creates
  exactly one object URL for each item it turns succeeded. No object URL is ever revoked:
  a run only appends to the store, and clearing the batch or uploading a new one drops the
  items while every object URL created for them stays in the store.
\<close>

theorem handles_never_released:
  assumes wf: "wellFormedBatch st"
  shows "wellFormedBatch (processBatch w st)
    \<and> wellFormedBatch (handleFileUpload clock file st)
    \<and> wellFormedBatch (onClickClear st)
    \<and> (\<forall>k<length (items st). audioUrl (items st ! k) \<noteq> None \<longrightarrow>
          audioUrl (items (processBatch w st) ! k) = audioUrl (items st ! k))
    \<and> length (objectURLs (browser (processBatch w st))) + succeededCount (items st)
       = length (objectURLs (browser st)) + succeededCount (items (processBatch w st))
    \<and> take (length (objectURLs (browser st))) (objectURLs (browser (processBatch w st)))
       = objectURLs (browser st)
    \<and> items (onClickClear st) = [] \<and> browser (onClickClear st) = browser st
    \<and> browser (handleFileUpload clock file st) = browser st"
proof (intro conjI allI impI)
  show "wellFormedBatch (processBatch w st)"
    using processBatch_wellFormed [OF wf] by simp
  show "wellFormedBatch (handleFileUpload clock file st)"
    using wf by (rule wellFormedBatch_upload)
  show "wellFormedBatch (onClickClear st)" by (rule wellFormedBatch_clear)
  show "length (objectURLs (browser (processBatch w st))) + succeededCount (items st)
       = length (objectURLs (browser st)) + succeededCount (items (processBatch w st))"
    using processBatch_wellFormed [OF wf] by simp
  show "take (length (objectURLs (browser st))) (objectURLs (browser (processBatch w st)))
       = objectURLs (browser st)"
    by (rule processBatch_store_prefix)
  show "items (onClickClear st) = []" "browser (onClickClear st) = browser st"
    by (simp_all add: onClickClear_def)
  show "browser (handleFileUpload clock file st) = browser st"
    by (simp add: handleFileUpload_def Let_def split: option.splits sum.splits)
next
  fix k
  assume k: "k < length (items st)" and u: "audioUrl (items st ! k) \<noteq> None"
  have "status (items st ! k) = Success"
    using wf k u by (auto simp: wellFormedBatch_def list_all_length)
  then have "items (processBatch w st) ! k = items st ! k"
    using wf k by (intro processBatch_succeeded_nth) (simp_all add: wellFormedBatch_def)
  then show "audioUrl (items (processBatch w st) ! k) = audioUrl (items st ! k)" by simp
qed

text \<open>
  The amended C8 on the state after the first run of the scenario, run again over a
  service that succeeds, and cleared.
\<close>

theorem handles_never_released_witness:
  "wellFormedBatch firstRun
   \<and> wellFormedBatch (processBatch (failingFor []) firstRun)
   \<and> audioUrl (items (processBatch (failingFor []) firstRun) ! 0) = Some ''blob:0''
   \<and> length (objectURLs (browser (processBatch (failingFor []) firstRun))) + 3
       = 3 + succeededCount (items (processBatch (failingFor []) firstRun))
   \<and> take 3 (objectURLs (browser (processBatch (failingFor []) firstRun)))
       = objectURLs (browser firstRun)
   \<and> browser (onClickClear firstRun) = browser firstRun"
proof -
  have wf: "wellFormedBatch firstRun"
    by (simp add: wellFormedBatch_def firstRun_items firstRun_store)
  note t = handles_never_released [OF wf, of "failingFor []"]
  have "audioUrl (items firstRun ! 0) \<noteq> None \<and> 0 < length (items firstRun)
      \<and> audioUrl (items firstRun ! 0) = Some ''blob:0''"
    by (simp add: firstRun_items)
  with t have "audioUrl (items (processBatch (failingFor []) firstRun) ! 0) = Some ''blob:0''"
    by metis
  moreover have "succeededCount (items firstRun) = 3" "length (objectURLs (browser firstRun)) = 3"
    by (simp_all add: succeededCount_def firstRun_items firstRun_store)
  ultimately show ?thesis using wf t by simp
qed

end
